theory Spec2Isabelle
  imports Main "HOL-Library.Sublist"
begin

section \<open>JavaScript string primitives\<close>

text \<open>
  A JavaScript string is modelled by the byte list of its UTF-8 encoding: one \<open>char\<close>
  per ASCII character. All the needles the server searches for are ASCII, and an ASCII
  byte never occurs inside a multi-byte sequence, so \<open>includes\<close>, \<open>startsWith\<close>,
  \<open>endsWith\<close> and \<open>split\<close> on ASCII arguments are the byte-wise operations.
\<close>

definition startsWith :: "string \<Rightarrow> string \<Rightarrow> bool" where
  "startsWith s p = prefix p s"

definition endsWith :: "string \<Rightarrow> string \<Rightarrow> bool" where
  "endsWith s p = prefix (rev p) (rev s)"

fun js_includes :: "string \<Rightarrow> string \<Rightarrow> bool" where
  "js_includes [] sub = (sub = [])"
| "js_includes (c # cs) sub = (prefix sub (c # cs) \<or> js_includes cs sub)"

text \<open>
  \<open>s.split(c)\<close> for a one-character separator: never the empty list, \<open>''.split(c)\<close>
  is \<open>['']\<close>. \<open>join_on c\<close> is \<open>xs.join(c)\<close>.
\<close>

fun split_on :: "char \<Rightarrow> string \<Rightarrow> string list" where
  "split_on sep [] = [[]]"
| "split_on sep (c # cs) =
     (if c = sep then [] # split_on sep cs
      else (case split_on sep cs of l # ls \<Rightarrow> (c # l) # ls | [] \<Rightarrow> [[c]]))"

fun join_on :: "char \<Rightarrow> string list \<Rightarrow> string" where
  "join_on sep [] = []"
| "join_on sep [l] = l"
| "join_on sep (l # m # ls) = l @ sep # join_on sep (m # ls)"

text \<open>
  \<open>String.prototype.trim\<close> removes the code points of WhiteSpace and LineTerminator
  from both ends: U+0009 to U+000D and U+0020 (one byte each), U+00A0 (\<open>C2 A0\<close>),
  U+1680 (\<open>E1 9A 80\<close>), U+2000 to U+200A, U+2028, U+2029, U+202F (\<open>E2 80 xx\<close>),
  U+205F (\<open>E2 81 9F\<close>), U+3000 (\<open>E3 80 80\<close>) and U+FEFF (\<open>EF BB BF\<close>).
\<close>

definition ws1 :: "char \<Rightarrow> bool" where
  "ws1 a = (a \<in> set [CHR 0x09, CHR 0x0A, CHR 0x0B, CHR 0x0C, CHR 0x0D, CHR 0x20])"

definition ws2 :: "char \<Rightarrow> char \<Rightarrow> bool" where
  "ws2 a b = (a = CHR 0xC2 \<and> b = CHR 0xA0)"

definition ws3 :: "char \<Rightarrow> char \<Rightarrow> char \<Rightarrow> bool" where
  "ws3 a b c =
     ((a = CHR 0xE1 \<and> b = CHR 0x9A \<and> c = CHR 0x80) \<or>
      (a = CHR 0xE2 \<and> b = CHR 0x80 \<and>
         c \<in> set [CHR 0x80, CHR 0x81, CHR 0x82, CHR 0x83, CHR 0x84, CHR 0x85, CHR 0x86,
                    CHR 0x87, CHR 0x88, CHR 0x89, CHR 0x8A, CHR 0xA8, CHR 0xA9, CHR 0xAF]) \<or>
      (a = CHR 0xE2 \<and> b = CHR 0x81 \<and> c = CHR 0x9F) \<or>
      (a = CHR 0xE3 \<and> b = CHR 0x80 \<and> c = CHR 0x80) \<or>
      (a = CHR 0xEF \<and> b = CHR 0xBB \<and> c = CHR 0xBF))"

fun trimStart :: "string \<Rightarrow> string" where
  "trimStart (a # b # c # s) =
     (if ws1 a then trimStart (b # c # s)
      else if ws2 a b then trimStart (c # s)
      else if ws3 a b c then trimStart s
      else a # b # c # s)"
| "trimStart [a, b] = (if ws1 a then trimStart [b] else if ws2 a b then [] else [a, b])"
| "trimStart [a] = (if ws1 a then [] else [a])"
| "trimStart [] = []"

text \<open>The same scan from the end, on the reversed string, with each sequence read backwards.\<close>

fun trimEnd_rev :: "string \<Rightarrow> string" where
  "trimEnd_rev (c # b # a # s) =
     (if ws1 c then trimEnd_rev (b # a # s)
      else if ws2 b c then trimEnd_rev (a # s)
      else if ws3 a b c then trimEnd_rev s
      else c # b # a # s)"
| "trimEnd_rev [c, b] = (if ws1 c then trimEnd_rev [b] else if ws2 b c then [] else [c, b])"
| "trimEnd_rev [c] = (if ws1 c then [] else [c])"
| "trimEnd_rev [] = []"

definition trim :: "string \<Rightarrow> string" where
  "trim s = rev (trimEnd_rev (rev (trimStart s)))"

text \<open>
  \<open>toLowerCase\<close> on the ASCII letters. The other bytes are kept: no code point outside
  \<open>A\<close> to \<open>Z\<close> lower-cases to a sequence ending in one of \<open>.\<close>, \<open>m\<close>, \<open>3\<close>, \<open>u\<close>,
  \<open>8\<close>, so the suffix test the proxy makes on the result is not affected.
\<close>

definition lower_char :: "char \<Rightarrow> char" where
  "lower_char c =
     (case map_of (zip ''ABCDEFGHIJKLMNOPQRSTUVWXYZ'' ''abcdefghijklmnopqrstuvwxyz'') c of
        Some d \<Rightarrow> d | None \<Rightarrow> c)"

definition toLowerCase :: "string \<Rightarrow> string" where
  "toLowerCase s = map lower_char s"

text \<open>\<open>a || b\<close> on an optional string: \<open>undefined\<close> and the empty string are falsy.\<close>

definition js_or :: "string option \<Rightarrow> string \<Rightarrow> string" where
  "js_or a b = (case a of None \<Rightarrow> b | Some s \<Rightarrow> if s = [] then b else s)"

definition truthy :: "string option \<Rightarrow> bool" where
  "truthy a = (case a of None \<Rightarrow> False | Some s \<Rightarrow> s \<noteq> [])"

section \<open>\<open>encodeURIComponent\<close> and \<open>decodeURIComponent\<close>\<close>

text \<open>
  \<open>encodeURIComponent\<close> keeps the unreserved characters and writes every other byte of
  the UTF-8 encoding as \<open>%XX\<close> with upper-case hexadecimal digits. (It throws on a lone
  surrogate, which has no UTF-8 encoding and so no representation here.)
\<close>

definition uri_unreserved :: "char \<Rightarrow> bool" where
  "uri_unreserved c =
     (c \<in> set (''ABCDEFGHIJKLMNOPQRSTUVWXYZabcdefghijklmnopqrstuvwxyz0123456789-_.!~*()''
               @ [CHR 0x27]))"

definition hex_digit :: "nat \<Rightarrow> char" where
  "hex_digit n = ''0123456789ABCDEF'' ! (n mod 16)"

definition pct_encode :: "char \<Rightarrow> string" where
  "pct_encode c =
     [CHR ''%'', hex_digit ((of_char c :: nat) div 16), hex_digit ((of_char c :: nat) mod 16)]"

definition encodeURIComponent :: "string \<Rightarrow> string" where
  "encodeURIComponent s = concat (map (\<lambda>c. if uri_unreserved c then [c] else pct_encode c) s)"

definition hex_val :: "char \<Rightarrow> nat option" where
  "hex_val c =
     map_of (zip ''0123456789ABCDEFabcdef''
                 [0, 1, 2, 3, 4, 5, 6, 7, 8, 9, 10, 11, 12, 13, 14, 15, 10, 11, 12, 13, 14, 15]) c"

text \<open>
  \<open>decodeURIComponent\<close> in two passes. The first reads the escapes: a \<open>%\<close> not followed
  by two hexadecimal digits is a URIError (\<open>None\<close>). The second checks that the escaped
  bytes from \<open>0x80\<close> up form UTF-8 encodings of code points, as the Decode operation of
  ECMAScript does: lead byte \<open>C2\<close> to \<open>DF\<close> with one continuation byte, \<open>E0\<close> to
  \<open>EF\<close> with two, \<open>F0\<close> to \<open>F4\<close> with three, each continuation an escape itself, no
  overlong form, no surrogate, nothing above U+10FFFF.
\<close>

datatype uri_token = Lit char | Pct nat

fun pct_tokens :: "string \<Rightarrow> uri_token list option" where
  "pct_tokens [] = Some []"
| "pct_tokens [c] = (if c = CHR ''%'' then None else Some [Lit c])"
| "pct_tokens [c, d] =
     (if c = CHR ''%'' then None else map_option ((#) (Lit c)) (pct_tokens [d]))"
| "pct_tokens (c # h1 # h2 # rest) =
     (if c = CHR ''%'' then
        (case (hex_val h1, hex_val h2) of
           (Some a, Some b) \<Rightarrow> map_option ((#) (Pct (16 * a + b))) (pct_tokens rest)
         | _ \<Rightarrow> None)
      else map_option ((#) (Lit c)) (pct_tokens (h1 # h2 # rest)))"

definition cont_byte :: "nat \<Rightarrow> nat \<Rightarrow> nat \<Rightarrow> bool" where
  "cont_byte lo hi b = (lo \<le> b \<and> b \<le> hi)"

fun utf8_assemble :: "uri_token list \<Rightarrow> string option" where
  "utf8_assemble [] = Some []"
| "utf8_assemble (Lit c # ts) = map_option ((#) c) (utf8_assemble ts)"
| "utf8_assemble (Pct b # ts) =
     (if b < 0x80 then map_option ((#) (char_of b)) (utf8_assemble ts)
      else if 0xC2 \<le> b \<and> b \<le> 0xDF then
        (case ts of
           Pct b1 # ts1 \<Rightarrow>
             if cont_byte 0x80 0xBF b1
             then map_option (\<lambda>r. char_of b # char_of b1 # r) (utf8_assemble ts1)
             else None
         | _ \<Rightarrow> None)
      else if 0xE0 \<le> b \<and> b \<le> 0xEF then
        (case ts of
           Pct b1 # Pct b2 # ts2 \<Rightarrow>
             if cont_byte (if b = 0xE0 then 0xA0 else 0x80) (if b = 0xED then 0x9F else 0xBF) b1
                \<and> cont_byte 0x80 0xBF b2
             then map_option (\<lambda>r. char_of b # char_of b1 # char_of b2 # r) (utf8_assemble ts2)
             else None
         | _ \<Rightarrow> None)
      else if 0xF0 \<le> b \<and> b \<le> 0xF4 then
        (case ts of
           Pct b1 # Pct b2 # Pct b3 # ts3 \<Rightarrow>
             if cont_byte (if b = 0xF0 then 0x90 else 0x80) (if b = 0xF4 then 0x8F else 0xBF) b1
                \<and> cont_byte 0x80 0xBF b2 \<and> cont_byte 0x80 0xBF b3
             then map_option (\<lambda>r. char_of b # char_of b1 # char_of b2 # char_of b3 # r)
                    (utf8_assemble ts3)
             else None
         | _ \<Rightarrow> None)
      else None)"

definition decodeURIComponent :: "string \<Rightarrow> string option" where
  "decodeURIComponent s = (case pct_tokens s of None \<Rightarrow> None | Some ts \<Rightarrow> utf8_assemble ts)"

text \<open>
  Well-formed UTF-8: the strings that are encodings of JavaScript strings without lone
  surrogates. Every ASCII string is well-formed.
\<close>

fun utf8_wf :: "string \<Rightarrow> bool" where
  "utf8_wf [] = True"
| "utf8_wf (c # cs) =
     (let b = (of_char c :: nat) in
      if b < 0x80 then utf8_wf cs
      else if 0xC2 \<le> b \<and> b \<le> 0xDF then
        (case cs of
           c1 # r \<Rightarrow> cont_byte 0x80 0xBF (of_char c1) \<and> utf8_wf r
         | _ \<Rightarrow> False)
      else if 0xE0 \<le> b \<and> b \<le> 0xEF then
        (case cs of
           c1 # c2 # r \<Rightarrow>
             cont_byte (if b = 0xE0 then 0xA0 else 0x80) (if b = 0xED then 0x9F else 0xBF) (of_char c1)
             \<and> cont_byte 0x80 0xBF (of_char c2) \<and> utf8_wf r
         | _ \<Rightarrow> False)
      else if 0xF0 \<le> b \<and> b \<le> 0xF4 then
        (case cs of
           c1 # c2 # c3 # r \<Rightarrow>
             cont_byte (if b = 0xF0 then 0x90 else 0x80) (if b = 0xF4 then 0x8F else 0xBF) (of_char c1)
             \<and> cont_byte 0x80 0xBF (of_char c2) \<and> cont_byte 0x80 0xBF (of_char c3) \<and> utf8_wf r
         | _ \<Rightarrow> False)
      else False)"

text \<open>The token \<open>encodeURIComponent\<close> produces for one byte.\<close>

definition tok :: "char \<Rightarrow> uri_token" where
  "tok c = (if uri_unreserved c then Lit c else Pct (of_char c))"

section \<open>Network capture and stream selection (\<open>/api/extract-stream\<close>)\<close>

record capturedUrls =
  m3u8 :: "string list"
  mp4 :: "string list"
  iframe :: "string list"
  other :: "string list"

definition emptyCaptured :: capturedUrls where
  "emptyCaptured = \<lparr>m3u8 = [], mp4 = [], iframe = [], other = []\<rparr>"

text \<open>The capturing half of the \<open>page.on('request', ...)\<close> hook: \<open>push\<close> appends.\<close>

definition on_request :: "capturedUrls \<Rightarrow> string \<Rightarrow> capturedUrls" where
  "on_request c url =
     (if js_includes url ''.m3u8'' then c\<lparr>m3u8 := m3u8 c @ [url]\<rparr>
      else if js_includes url ''.mp4'' \<or> js_includes url ''.webm'' \<or> js_includes url ''.mkv''
        then c\<lparr>mp4 := mp4 c @ [url]\<rparr>
      else c)"

definition has_marker :: "string \<Rightarrow> bool" where
  "has_marker u = (js_includes u ''MTA4MA=='' \<or> js_includes u ''NzIw'')"

text \<open>
  \<open>for (const m3u8Url of capturedUrls.m3u8) { if (marker) { best = m3u8Url; break; } }\<close>:
  the second argument is the current value of \<open>bestM3u8Url\<close>.
\<close>

fun best_m3u8_loop :: "string list \<Rightarrow> string \<Rightarrow> string" where
  "best_m3u8_loop [] best = best"
| "best_m3u8_loop (u # us) best = (if has_marker u then u else best_m3u8_loop us best)"

text \<open>
  The selection after navigation: \<open>None\<close> is \<open>streamUrl\<close> left \<open>null\<close>.
  \<open>capturedUrls.m3u8[0]\<close> is read only when the list is non-empty.
\<close>

definition select_stream :: "capturedUrls \<Rightarrow> string option" where
  "select_stream c =
     (case m3u8 c of
        h # t \<Rightarrow> Some (best_m3u8_loop (h # t) h)
      | [] \<Rightarrow> (case mp4 c of d # _ \<Rightarrow> Some d | [] \<Rightarrow> None))"

section \<open>The streaming proxy (\<open>/api/video-proxy\<close>)\<close>

text \<open>
  The platform's \<open>URL\<close> class is not part of the repository, so it is a pair of
  parameters: \<open>parseURL u\<close> is \<open>new URL(u)\<close> and \<open>resolveURL line base\<close> is
  \<open>new URL(line, base).toString()\<close>, each \<open>None\<close> when the constructor throws.
\<close>

definition nl :: char where
  "nl = CHR 0x0A"

text \<open>The callback of \<open>playlist.split('\n').map(...)\<close>; \<open>referer\<close> is \<open>req.query.referer\<close>.\<close>

definition rewrite_line ::
  "(string \<Rightarrow> 'u option) \<Rightarrow> (string \<Rightarrow> 'u \<Rightarrow> string option) \<Rightarrow> string \<Rightarrow> string option
     \<Rightarrow> string \<Rightarrow> string" where
  "rewrite_line parseURL resolveURL url referer line0 =
     (let line = trim line0 in
      if line = [] \<or> startsWith line ''#'' then line
      else
        (case parseURL url of
           None \<Rightarrow> line
         | Some base \<Rightarrow>
             (case resolveURL line base of
                None \<Rightarrow> line
              | Some segUrl \<Rightarrow>
                  ''/api/video-proxy?url='' @ encodeURIComponent segUrl
                    @ ''&referer='' @ encodeURIComponent (js_or referer url))))"

definition rewrite_playlist ::
  "(string \<Rightarrow> 'u option) \<Rightarrow> (string \<Rightarrow> 'u \<Rightarrow> string option) \<Rightarrow> string \<Rightarrow> string option
     \<Rightarrow> string \<Rightarrow> string" where
  "rewrite_playlist parseURL resolveURL url referer playlist =
     join_on nl (map (rewrite_line parseURL resolveURL url referer) (split_on nl playlist))"

text \<open>
  Requests and responses. Header collections are association lists; the names of the
  upstream's response headers are lower-case, as axios delivers them. \<open>Piped d\<close> is the
  upstream body \<open>d\<close> streamed to the client by \<open>response.data.pipe(res)\<close>, and
  \<open>ErrorText\<close> the text built from the caught error's message.
\<close>

type_synonym headers = "(string \<times> string) list"

record proxy_request =
  query_url :: "string option"
  query_referer :: "string option"
  header_range :: "string option"

datatype res_body = Text string | Piped string | ErrorText

record response =
  res_status :: nat
  res_headers :: headers
  res_body :: res_body

text \<open>
  What the upstream does with a GET of a URL under given request headers: no response
  (network failure, timeout), or a final status, headers and body.
\<close>

datatype upstream_result = NoResponse | Resolved nat headers string

text \<open>
  \<open>axios\<close> with \<open>validateStatus: s => s >= 200 && s < 400\<close>: the promise rejects
  (\<open>None\<close>) without a response or on any other status.
\<close>

definition axios_get ::
  "(string \<Rightarrow> headers \<Rightarrow> upstream_result) \<Rightarrow> string \<Rightarrow> headers
     \<Rightarrow> (nat \<times> headers \<times> string) option" where
  "axios_get upstream url hs =
     (case upstream url hs of
        NoResponse \<Rightarrow> None
      | Resolved st rhs d \<Rightarrow> if 200 \<le> st \<and> st < 400 then Some (st, rhs, d) else None)"

definition dq :: string where
  "dq = [CHR 0x22]"

definition forwardHeaders :: "proxy_request \<Rightarrow> headers" where
  "forwardHeaders req =
     [(''User-Agent'', ''Mozilla/5.0 (Windows NT 10.0; Win64; x64) AppleWebKit/537.36 (KHTML, like Gecko) Chrome/120.0.0.0 Safari/537.36''),
      (''Referer'', js_or (query_referer req) ''https://vidlink.pro/''),
      (''Accept'', ''*/*''),
      (''Accept-Encoding'', ''identity;q=1, *;q=0''),
      (''Accept-Language'', ''en-US,en;q=0.9''),
      (''Cache-Control'', ''no-cache''),
      (''Connection'', ''keep-alive''),
      (''Pragma'', ''no-cache''),
      (''Sec-Ch-Ua'', dq @ ''Not_A Brand'' @ dq @ '';v='' @ dq @ ''8'' @ dq @ '', '' @ dq
         @ ''Chromium'' @ dq @ '';v='' @ dq @ ''120'' @ dq @ '', '' @ dq @ ''Google Chrome''
         @ dq @ '';v='' @ dq @ ''120'' @ dq),
      (''Sec-Ch-Ua-Mobile'', ''?0''),
      (''Sec-Ch-Ua-Platform'', dq @ ''Windows'' @ dq),
      (''Sec-Fetch-Dest'', ''empty''),
      (''Sec-Fetch-Mode'', ''cors''),
      (''Sec-Fetch-Site'', ''cross-site''),
      (''Origin'', ''https://vidlink.pro'')]
     @ (case header_range req of
          None \<Rightarrow> []
        | Some r \<Rightarrow> if r = [] then [] else [(''Range'', r)])"

text \<open>\<open>if (response.headers[k]) res.setHeader(name, response.headers[k])\<close>\<close>

definition copy_header :: "headers \<Rightarrow> string \<Rightarrow> string \<Rightarrow> headers" where
  "copy_header rhs k name =
     (case map_of rhs k of None \<Rightarrow> [] | Some v \<Rightarrow> if v = [] then [] else [(name, v)])"

definition is_playlist_url :: "string \<Rightarrow> bool" where
  "is_playlist_url url = endsWith (toLowerCase url) ''.m3u8''"

definition proxy_error :: response where
  "proxy_error = \<lparr>res_status = 500, res_headers = [], res_body = ErrorText\<rparr>"

definition video_proxy ::
  "(string \<Rightarrow> 'u option) \<Rightarrow> (string \<Rightarrow> 'u \<Rightarrow> string option)
     \<Rightarrow> (string \<Rightarrow> headers \<Rightarrow> upstream_result) \<Rightarrow> proxy_request \<Rightarrow> response" where
  "video_proxy parseURL resolveURL upstream req =
     (if \<not> truthy (query_url req)
      then \<lparr>res_status = 400, res_headers = [], res_body = Text ''Missing url parameter''\<rparr>
      else
        (let url = js_or (query_url req) [] in
         if is_playlist_url url then
           (case axios_get upstream url (forwardHeaders req) of
              None \<Rightarrow> proxy_error
            | Some (st, rhs, d) \<Rightarrow>
                \<lparr>res_status = 200,
                 res_headers = [(''Content-Type'', ''application/vnd.apple.mpegurl''),
                                (''Access-Control-Allow-Origin'', ''*'')],
                 res_body = Text (rewrite_playlist parseURL resolveURL url (query_referer req) d)\<rparr>)
         else
           (case axios_get upstream url (forwardHeaders req) of
              None \<Rightarrow> proxy_error
            | Some (st, rhs, d) \<Rightarrow>
                \<lparr>res_status = st,
                 res_headers =
                   copy_header rhs ''content-type'' ''Content-Type''
                   @ copy_header rhs ''content-length'' ''Content-Length''
                   @ copy_header rhs ''accept-ranges'' ''Accept-Ranges''
                   @ copy_header rhs ''content-range'' ''Content-Range''
                   @ [(''Access-Control-Allow-Origin'', ''*'')],
                 res_body = Piped d\<rparr>)))"

text \<open>
  A resolver for concrete runs, covering the plainest cases of the URL standard: a URL
  needs a \<open>://\<close>; a reference that is only a scheme and \<open>://\<close> has an empty host and is
  rejected; a reference with its own scheme stands for itself; any other reference is
  taken as a plain relative path and replaces the last path segment of the base.
\<close>

definition sample_parseURL :: "string \<Rightarrow> string option" where
  "sample_parseURL u = (if js_includes u ''://'' then Some u else None)"

definition sample_resolveURL :: "string \<Rightarrow> string \<Rightarrow> string option" where
  "sample_resolveURL line base =
     (if endsWith line ''://'' then None
      else if js_includes line ''://'' then Some line
      else Some (rev (dropWhile (\<lambda>c. c \<noteq> CHR ''/'') (rev base)) @ line))"

text \<open>
  The \<open>url\<close> parameter of a rewritten line as the next request's query parser reads it:
  the text after the first \<open>?\<close>, cut at each \<open>&\<close>, each piece cut at its first \<open>=\<close>.
\<close>

definition query_pairs :: "string \<Rightarrow> (string \<times> string) list" where
  "query_pairs s =
     map (\<lambda>p. (takeWhile (\<lambda>c. c \<noteq> CHR ''='') p, drop 1 (dropWhile (\<lambda>c. c \<noteq> CHR ''='') p)))
       (split_on (CHR ''&'') (drop 1 (dropWhile (\<lambda>c. c \<noteq> CHR ''?'') s)))"

definition query_param :: "string \<Rightarrow> string \<Rightarrow> string option" where
  "query_param k s =
     (case map_of (query_pairs s) k of None \<Rightarrow> None | Some v \<Rightarrow> decodeURIComponent v)"

section \<open>The multi-source resolver (\<open>/api/extract-stream\<close> with fallback sources)\<close>

text \<open>
  \<open>s.split(sep)[1]\<close> is the text between the first and the second occurrence of
  \<open>sep\<close>, and \<open>s.split(sep)[0]\<close> the text before the first: \<open>after_first\<close> is
  \<open>None\<close> when \<open>sep\<close> does not occur (the array has one element).
\<close>

fun after_first :: "string \<Rightarrow> string \<Rightarrow> string option" where
  "after_first sep [] = (if sep = [] then Some [] else None)"
| "after_first sep (c # cs) =
     (if prefix sep (c # cs) then Some (drop (length sep) (c # cs)) else after_first sep cs)"

fun before_first :: "string \<Rightarrow> string \<Rightarrow> string" where
  "before_first sep [] = []"
| "before_first sep (c # cs) = (if prefix sep (c # cs) then [] else c # before_first sep cs)"

text \<open>\<open>targetUrl.split('/movie/')[1]?.split('?')[0]\<close>\<close>

definition movie_id :: "string \<Rightarrow> string option" where
  "movie_id targetUrl =
     map_option (\<lambda>r. before_first ''?'' (before_first ''/movie/'' r))
       (after_first ''/movie/'' targetUrl)"

text \<open>
  \<open>targetUrl.match(/\/tv\/(\d+)\/(\d+)\/(\d+)/)\<close>: the leftmost position where
  \<open>/tv/\<close>, digits, \<open>/\<close>, digits, \<open>/\<close>, digits can be read. Each \<open>\d+\<close> takes the
  whole run of digits; a shorter run would have to be followed by \<open>/\<close> where a digit
  stands, so backtracking finds nothing more.
\<close>

definition is_digit :: "char \<Rightarrow> bool" where
  "is_digit c = (c \<in> set ''0123456789'')"

definition digits_then_slash :: "string \<Rightarrow> (string \<times> string) option" where
  "digits_then_slash s =
     (let d = takeWhile is_digit s in
      if d = [] then None
      else (case dropWhile is_digit s of
              [] \<Rightarrow> None
            | c # r \<Rightarrow> if c = CHR ''/'' then Some (d, r) else None))"

definition match_tv_at :: "string \<Rightarrow> (string \<times> string \<times> string) option" where
  "match_tv_at s =
     (if prefix ''/tv/'' s then
        (case digits_then_slash (drop 4 s) of
           None \<Rightarrow> None
         | Some (tvId, r1) \<Rightarrow>
             (case digits_then_slash r1 of
                None \<Rightarrow> None
              | Some (season, r2) \<Rightarrow>
                  (let episode = takeWhile is_digit r2 in
                   if episode = [] then None else Some (tvId, season, episode))))
      else None)"

fun tv_match :: "string \<Rightarrow> (string \<times> string \<times> string) option" where
  "tv_match [] = None"
| "tv_match (c # cs) =
     (case match_tv_at (c # cs) of Some m \<Rightarrow> Some m | None \<Rightarrow> tv_match cs)"

record source =
  src_name :: string
  movieUrl :: "string \<Rightarrow> string"
  tvUrl :: "string \<Rightarrow> string \<Rightarrow> string \<Rightarrow> string"
  priority :: nat

definition SOURCES :: "source list" where
  "SOURCES =
     [\<lparr>src_name = ''vidlink.pro'',
       movieUrl = (\<lambda>id. ''https://vidlink.pro/movie/'' @ id @ ''?nextbutton=true''),
       tvUrl = (\<lambda>id season episode.
          ''https://vidlink.pro/tv/'' @ id @ ''/'' @ season @ ''/'' @ episode @ ''?nextbutton=true''),
       priority = 1\<rparr>,
      \<lparr>src_name = ''moviesapi.to'',
       movieUrl = (\<lambda>id. ''https://moviesapi.to/movie/'' @ id),
       tvUrl = (\<lambda>id season episode.
          ''https://moviesapi.to/tv/'' @ id @ ''-'' @ season @ ''-'' @ episode),
       priority = 2\<rparr>]"

text \<open>
  The source URL of one loop iteration, \<open>None\<close> where the loop \<open>continue\<close>s. The handler
  has already answered 400 unless the target contains \<open>/movie/\<close> or \<open>/tv/\<close>, so the
  \<open>else if (isTV)\<close> branch is the \<open>else\<close> branch here.
\<close>

definition source_url :: "string \<Rightarrow> source \<Rightarrow> string option" where
  "source_url targetUrl s =
     (if js_includes targetUrl ''/movie/'' then
        (case movie_id targetUrl of
           None \<Rightarrow> None
         | Some movieId \<Rightarrow> if movieId = [] then None else Some (movieUrl s movieId))
      else
        (case tv_match targetUrl of
           None \<Rightarrow> None
         | Some (tvId, season, episode) \<Rightarrow> Some (tvUrl s tvId season episode)))"

text \<open>
  What a visit of a source URL brings: \<open>browser.newPage()\<close> throws; or the page is
  created and a later awaited call throws (navigation timeout included); or navigation and
  the waits complete, the request hook having seen the given URLs in this order.
\<close>

datatype visit = NewPageFails | PageFails | Settled "string list"

text \<open>
  The handler's effects on pages, with the \<open>Trying source\<close> log line that opens each
  iteration. A page is named by the source URL it was created for.
\<close>

datatype page_event = Trying string | Opened string | Closed string

definition close_if :: "string option \<Rightarrow> page_event list" where
  "close_if page = (case page of None \<Rightarrow> [] | Some p \<Rightarrow> [Closed p])"

text \<open>
  The loop \<open>for (const source of SOURCES)\<close>. The arguments \<open>page\<close> and \<open>ev\<close> are the
  variable \<open>page\<close> and the effects so far; the result is \<open>streamUrl\<close>, \<open>page\<close> and the
  effects at loop exit. On success the loop \<open>break\<close>s with the page open.
\<close>

fun try_sources ::
  "(string \<Rightarrow> visit) \<Rightarrow> string \<Rightarrow> source list \<Rightarrow> string option \<Rightarrow> page_event list
     \<Rightarrow> string option \<times> string option \<times> page_event list" where
  "try_sources world targetUrl [] page ev = (None, page, ev)"
| "try_sources world targetUrl (s # ss) page ev =
     (case source_url targetUrl s of
        None \<Rightarrow> try_sources world targetUrl ss page (ev @ [Trying (src_name s)])
      | Some sourceUrl \<Rightarrow>
          (case world sourceUrl of
             NewPageFails \<Rightarrow>
               try_sources world targetUrl ss page (ev @ [Trying (src_name s)] @ close_if page)
           | PageFails \<Rightarrow>
               try_sources world targetUrl ss (Some sourceUrl)
                 (ev @ [Trying (src_name s), Opened sourceUrl, Closed sourceUrl])
           | Settled reqs \<Rightarrow>
               (case select_stream (foldl on_request emptyCaptured reqs) of
                  Some u \<Rightarrow> (Some u, Some sourceUrl, ev @ [Trying (src_name s), Opened sourceUrl])
                | None \<Rightarrow>
                    try_sources world targetUrl ss (Some sourceUrl)
                      (ev @ [Trying (src_name s), Opened sourceUrl, Closed sourceUrl]))))"

datatype json = JNull | JBool bool | JNum int | JStr string | JErrorMessage
  | JArr "json list" | JObj "(string \<times> json) list"

record extract_result =
  ex_status :: nat
  ex_body :: "(string \<times> json) list"
  ex_events :: "page_event list"

text \<open>
  The handler. \<open>origin u\<close> is \<open>new URL(u).origin\<close>, \<open>None\<close> when the constructor
  throws; \<open>JErrorMessage\<close> stands for the caught error's message. The \<open>finally\<close> block
  closes the page the variable \<open>page\<close> holds.
\<close>

definition extract_stream ::
  "(string \<Rightarrow> string option) \<Rightarrow> (string \<Rightarrow> visit) \<Rightarrow> string option \<Rightarrow> extract_result" where
  "extract_stream origin world query =
     (if \<not> truthy query then
        \<lparr>ex_status = 400, ex_body = [(''error'', JStr ''URL parameter is required'')],
         ex_events = []\<rparr>
      else
        (let targetUrl = js_or query [];
             isMovie = js_includes targetUrl ''/movie/'';
             isTV = js_includes targetUrl ''/tv/'' in
         if \<not> isMovie \<and> \<not> isTV then
           \<lparr>ex_status = 400,
            ex_body = [(''error'', JStr ''Invalid URL format. Must be movie or TV show URL.'')],
            ex_events = []\<rparr>
         else
           (case try_sources world targetUrl SOURCES None [] of
              (streamUrl, page, ev) \<Rightarrow>
                (if \<not> truthy streamUrl then
                   \<lparr>ex_status = 404,
                    ex_body =
                      [(''error'', JStr ''Could not extract stream URL''),
                       (''debug'', JObj
                          [(''message'', JStr ''No matching URL pattern found from any source''),
                           (''triedSources'', JArr (map (\<lambda>s. JStr (src_name s)) SOURCES)),
                           (''suggestion'', JStr ''All sources failed or video might be protected'')])],
                    ex_events = ev @ close_if page\<rparr>
                 else
                   (let s0 = js_or streamUrl [];
                        absolute =
                          (if startsWith s0 ''//'' then Some (''https:'' @ s0)
                           else if startsWith s0 ''/'' then
                             (case origin targetUrl of None \<Rightarrow> None | Some og \<Rightarrow> Some (og @ s0))
                           else Some s0) in
                    case absolute of
                      None \<Rightarrow>
                        \<lparr>ex_status = 500,
                         ex_body = [(''error'', JStr ''Failed to extract stream URL''),
                                    (''details'', JErrorMessage)],
                         ex_events = ev @ close_if page\<rparr>
                    | Some su \<Rightarrow>
                        \<lparr>ex_status = 200,
                         ex_body =
                           [(''success'', JBool True),
                            (''streamUrl'', JStr su),
                            (''type'', JStr (if js_includes su ''.m3u8'' then ''hls'' else ''direct'')),
                            (''contentType'', JStr (if isTV then ''tv'' else ''movie'')),
                            (''source'', JStr ''multiple_sources''),
                            (''info'', JObj
                               [(''originalUrl'', JStr targetUrl),
                                (''cleanStreamUrl'', JStr su),
                                (''isAdFree'', JBool True),
                                (''contentType'', JStr (if isTV then ''tv'' else ''movie''))])],
                         ex_events = ev @ close_if page\<rparr>)))))"

text \<open>Whether a source, visited for this target, yields a stream.\<close>

definition yields :: "(string \<Rightarrow> visit) \<Rightarrow> string \<Rightarrow> source \<Rightarrow> bool" where
  "yields world targetUrl s =
     (case source_url targetUrl s of
        None \<Rightarrow> False
      | Some sourceUrl \<Rightarrow>
          (case world sourceUrl of
             Settled reqs \<Rightarrow> select_stream (foldl on_request emptyCaptured reqs) \<noteq> None
           | _ \<Rightarrow> False))"

definition tried :: "page_event list \<Rightarrow> string list" where
  "tried ev = concat (map (\<lambda>e. case e of Trying n \<Rightarrow> [n] | _ \<Rightarrow> []) ev)"

definition opened :: "page_event list \<Rightarrow> string list" where
  "opened ev = concat (map (\<lambda>e. case e of Opened u \<Rightarrow> [u] | _ \<Rightarrow> []) ev)"

text \<open>
  A run in which the first source times out during navigation and the second one
  requests a manifest.
\<close>

definition first_times_out :: "string \<Rightarrow> visit" where
  "first_times_out u =
     (if u = ''https://vidlink.pro/movie/550?nextbutton=true'' then PageFails
      else if u = ''https://moviesapi.to/movie/550''
        then Settled [''https://moviesapi.to/movie/550'', ''https://cdn.example/hls/index.m3u8'']
      else NewPageFails)"

definition closed :: "page_event list \<Rightarrow> string list" where
  "closed ev = concat (map (\<lambda>e. case e of Closed u \<Rightarrow> [u] | _ \<Rightarrow> []) ev)"

section \<open>The DOM and script fallback (\<open>/api/extract-stream\<close>, single source)\<close>

text \<open>
  The entries \<open>{type, src}\<close> that \<open>page.evaluate\<close> returns. A \<open>src\<close> is a string or
  some other value (a number or an object taken from a script's JSON); of a value that
  is not a string only its truthiness is kept.
\<close>

datatype js_value = JsString string | JsOther bool

record video_source =
  vs_type :: string
  vs_src :: js_value

datatype error = InvalidURL

definition is_ad :: "string \<Rightarrow> bool" where
  "is_ad src =
     (js_includes src ''ads'' \<or> js_includes src ''doubleclick'' \<or> js_includes src ''analytics'')"

text \<open>
  The loop \<open>for (const source of videoSources)\<close>: \<open>Inr None\<close> when it ends with
  \<open>streamUrl\<close> still \<open>null\<close>, \<open>Inl InvalidURL\<close> when \<open>new URL(url)\<close> throws.
\<close>

fun pick_source ::
  "(string \<Rightarrow> string option) \<Rightarrow> string \<Rightarrow> video_source list \<Rightarrow> error + string option" where
  "pick_source origin url [] = Inr None"
| "pick_source origin url (c # cs) =
     (case vs_src c of
        JsOther b \<Rightarrow> pick_source origin url cs
      | JsString src \<Rightarrow>
          if src = [] then pick_source origin url cs
          else if is_ad src then pick_source origin url cs
          else if startsWith src ''//'' then Inr (Some (''https:'' @ src))
          else if startsWith src ''/'' then
            (case origin url of None \<Rightarrow> Inl InvalidURL | Some og \<Rightarrow> Inr (Some (og @ src)))
          else if startsWith src ''http'' then Inr (Some src)
          else pick_source origin url cs)"

text \<open>
  \<open>streamUrl\<close> after the network selection and, only when that left it \<open>null\<close>, the
  scan of the page's sources.
\<close>

definition stream_after_scan ::
  "(string \<Rightarrow> string option) \<Rightarrow> string \<Rightarrow> capturedUrls \<Rightarrow> video_source list
     \<Rightarrow> error + string option" where
  "stream_after_scan origin url captured videoSources =
     (if truthy (select_stream captured) then Inr (select_stream captured)
      else pick_source origin url videoSources)"

text \<open>
  The reading of the loop to compare it with: a candidate is usable when its \<open>src\<close> is a
  non-empty string without an ad marker that starts with \<open>/\<close> (so also \<open>//\<close>) or with
  \<open>http\<close>; \<open>make_absolute\<close> is the conversion of a usable \<open>src\<close>.
\<close>

definition usable :: "video_source \<Rightarrow> bool" where
  "usable c =
     (case vs_src c of
        JsOther b \<Rightarrow> False
      | JsString src \<Rightarrow>
          src \<noteq> [] \<and> \<not> is_ad src \<and> (startsWith src ''/'' \<or> startsWith src ''http''))"

definition make_absolute ::
  "(string \<Rightarrow> string option) \<Rightarrow> string \<Rightarrow> js_value \<Rightarrow> error + string option" where
  "make_absolute origin url v =
     (case v of
        JsOther b \<Rightarrow> Inr None
      | JsString src \<Rightarrow>
          if startsWith src ''//'' then Inr (Some (''https:'' @ src))
          else if startsWith src ''/'' then
            (case origin url of None \<Rightarrow> Inl InvalidURL | Some og \<Rightarrow> Inr (Some (og @ src)))
          else Inr (Some src))"

section \<open>The \<open>/api/stream\<close> proxy: outbound headers\<close>

text \<open>
  The value of a property of a headers object: a string; a number or a boolean, of which
  only the truthiness is kept; \<open>null\<close>; or an object or array, given by its own
  enumerable entries.
\<close>

datatype hval = HStr string | HPrim bool | HNull | HObj "(string \<times> hval) list"

text \<open>
  An object is its own properties and its prototype: \<open>Object.prototype\<close>, \<open>null\<close>,
  or an object that \<open>JSON.parse\<close> made (whose own prototype is \<open>Object.prototype\<close>
  or \<open>Array.prototype\<close>), given by its entries. The own properties are listed in
  insertion order; JavaScript enumerates integer-like keys first, and nothing below
  depends on the order, only on the value found for a key.
\<close>

datatype prototype = ObjectPrototype | NullPrototype | ProtoObj "(string \<times> hval) list"

record js_object =
  obj_own :: "(string \<times> hval) list"
  obj_proto :: prototype

text \<open>Writing an own data property: an existing key keeps its place.\<close>

fun own_set :: "(string \<times> hval) list \<Rightarrow> string \<Rightarrow> hval \<Rightarrow> (string \<times> hval) list" where
  "own_set [] k v = [(k, v)]"
| "own_set ((k', v') # kvs) k v =
     (if k' = k then (k, v) # kvs else (k', v') # own_set kvs k v)"

text \<open>
  The assignment \<open>ob[k] = v\<close>. Every property on the prototype chains that occur here
  is a writable data property, except the accessor \<open>__proto__\<close> of \<open>Object.prototype\<close>.
  So the assignment writes an own property, unless the key is \<open>__proto__\<close>, the object
  has no own property of that name and the lookup reaches the accessor (the prototype is
  not \<open>null\<close> and has no own \<open>__proto__\<close>): then the setter runs, which replaces the
  prototype by an object or \<open>null\<close>, ignores any other value, and adds no property.
\<close>

definition reaches_proto_setter :: "js_object \<Rightarrow> bool" where
  "reaches_proto_setter ob =
     (map_of (obj_own ob) ''__proto__'' = None
      \<and> (case obj_proto ob of
            ObjectPrototype \<Rightarrow> True
          | NullPrototype \<Rightarrow> False
          | ProtoObj es \<Rightarrow> map_of es ''__proto__'' = None))"

definition proto_setter :: "js_object \<Rightarrow> hval \<Rightarrow> js_object" where
  "proto_setter ob v =
     (case v of
        HObj es \<Rightarrow> ob\<lparr>obj_proto := ProtoObj es\<rparr>
      | HNull \<Rightarrow> ob\<lparr>obj_proto := NullPrototype\<rparr>
      | _ \<Rightarrow> ob)"

definition obj_set :: "js_object \<Rightarrow> string \<Rightarrow> hval \<Rightarrow> js_object" where
  "obj_set ob k v =
     (if k = ''__proto__'' \<and> reaches_proto_setter ob then proto_setter ob v
      else ob\<lparr>obj_own := own_set (obj_own ob) k v\<rparr>)"

text \<open>
  \<open>Object.assign(target, source)\<close>, the source given by its own enumerable entries in
  enumeration order: each value is read from the source and assigned to the target.
\<close>

fun obj_assign :: "js_object \<Rightarrow> (string \<times> hval) list \<Rightarrow> js_object" where
  "obj_assign target [] = target"
| "obj_assign target ((k, v) # src) = obj_assign (obj_set target k v) src"

text \<open>
  The read \<open>ob.k\<close> for a key that \<open>Object.prototype\<close> and \<open>Array.prototype\<close> do not
  define (the handlers read \<open>referer\<close> and \<open>origin\<close>): the own property, else the
  prototype's; \<open>None\<close> is \<open>undefined\<close>.
\<close>

definition obj_get :: "js_object \<Rightarrow> string \<Rightarrow> hval option" where
  "obj_get ob k =
     (case map_of (obj_own ob) k of
        Some v \<Rightarrow> Some v
      | None \<Rightarrow> (case obj_proto ob of ProtoObj es \<Rightarrow> map_of es k | _ \<Rightarrow> None))"

text \<open>\<open>a || b\<close> on a property read.\<close>

definition val_or :: "hval option \<Rightarrow> hval \<Rightarrow> hval" where
  "val_or a b =
     (case a of
        None \<Rightarrow> b
      | Some (HStr s) \<Rightarrow> if s = [] then b else HStr s
      | Some (HPrim t) \<Rightarrow> if t then HPrim t else b
      | Some HNull \<Rightarrow> b
      | Some (HObj es) \<Rightarrow> HObj es)"

text \<open>
  \<open>url.match(/headers=([^&]*)/)\<close>, its first group: the text after the leftmost
  \<open>headers=\<close> up to the next \<open>&\<close>; \<open>None\<close> when there is no match.
\<close>

definition headers_param :: "string \<Rightarrow> string option" where
  "headers_param url =
     map_option (takeWhile (\<lambda>c. c \<noteq> CHR ''&'')) (after_first ''headers='' url)"

text \<open>
  The custom headers of a URL: \<open>None\<close> when there is no non-empty match, \<open>Some None\<close>
  when \<open>decodeURIComponent\<close> or \<open>JSON.parse\<close> throws, and the parsed value's entries
  otherwise. \<open>parseJSON j\<close> stands for \<open>JSON.parse(j)\<close> read through its own
  enumerable entries, \<open>None\<close> when it throws. (\<open>JSON.parse\<close> makes a member named
  \<open>__proto__\<close> an own property like any other.)
\<close>

definition custom_headers ::
  "(string \<Rightarrow> (string \<times> hval) list option) \<Rightarrow> string \<Rightarrow> (string \<times> hval) list option option" where
  "custom_headers parseJSON url =
     (case headers_param url of
        None \<Rightarrow> None
      | Some x \<Rightarrow>
          if x = [] then None
          else
            (case decodeURIComponent x of
               None \<Rightarrow> Some None
             | Some headersJson \<Rightarrow> Some (parseJSON headersJson)))"

text \<open>
  The handler that requests the URL directly (the variant without a browser). Its
  \<open>try\<close> block begins with \<open>new URL(url)\<close>, so an unparsable URL leaves the defaults.
  The result is the object \<open>headers\<close> given to axios as the \<open>headers\<close> option.
\<close>

definition direct_default_headers :: js_object where
  "direct_default_headers =
     \<lparr>obj_own =
        [(''User-Agent'', HStr ''Mozilla/5.0 (Windows NT 10.0; Win64; x64) AppleWebKit/537.36 (KHTML, like Gecko) Chrome/91.0.4472.124 Safari/537.36''),
         (''Accept'', HStr ''*/*''),
         (''Accept-Encoding'', HStr ''identity;q=1, *;q=0''),
         (''Connection'', HStr ''keep-alive'')],
      obj_proto = ObjectPrototype\<rparr>"

definition direct_stream_headers ::
  "(string \<Rightarrow> 'u option) \<Rightarrow> (string \<Rightarrow> (string \<times> hval) list option) \<Rightarrow> string \<Rightarrow> js_object" where
  "direct_stream_headers parseURL parseJSON url =
     (case parseURL url of
        None \<Rightarrow> direct_default_headers
      | Some urlObj \<Rightarrow>
          (case custom_headers parseJSON url of
             Some (Some customHeaders) \<Rightarrow> obj_assign direct_default_headers customHeaders
           | _ \<Rightarrow> direct_default_headers))"

text \<open>
  The handler of \<open>server.js\<close>, which opens the page in a browser first. It merges the
  custom headers into its \<open>headers\<close> object and then builds the request's headers
  anew, in an object literal, reading \<open>headers.referer\<close> and \<open>headers.origin\<close> only.
  \<open>new URL(url)\<close> stands before the \<open>try\<close> here: when it throws no request is made
  (\<open>None\<close>). The result is the own properties of the literal given to axios.
\<close>

definition browser_default_headers :: js_object where
  "browser_default_headers =
     \<lparr>obj_own =
        [(''User-Agent'', HStr ''Mozilla/5.0 (Windows NT 10.0; Win64; x64) AppleWebKit/537.36 (KHTML, like Gecko) Chrome/91.0.4472.124 Safari/537.36''),
         (''Referer'', HStr ''https://vidlink.pro/''),
         (''Origin'', HStr ''https://vidlink.pro'')],
      obj_proto = ObjectPrototype\<rparr>"

definition browser_merged_headers ::
  "(string \<Rightarrow> (string \<times> hval) list option) \<Rightarrow> string \<Rightarrow> js_object" where
  "browser_merged_headers parseJSON url =
     (case custom_headers parseJSON url of
        Some (Some customHeaders) \<Rightarrow> obj_assign browser_default_headers customHeaders
      | _ \<Rightarrow> browser_default_headers)"

definition browser_stream_headers ::
  "(string \<Rightarrow> 'u option) \<Rightarrow> (string \<Rightarrow> (string \<times> hval) list option) \<Rightarrow> string
     \<Rightarrow> (string \<times> hval) list option" where
  "browser_stream_headers parseURL parseJSON url =
     (case parseURL url of
        None \<Rightarrow> None
      | Some urlObj \<Rightarrow>
          (let headers = browser_merged_headers parseJSON url in
           Some
             [(''User-Agent'', HStr ''Mozilla/5.0 (Windows NT 10.0; Win64; x64) AppleWebKit/537.36 (KHTML, like Gecko) Chrome/91.0.4472.124 Safari/537.36''),
              (''Referer'', val_or (obj_get headers ''referer'') (HStr ''https://vidlink.pro/'')),
              (''Origin'', val_or (obj_get headers ''origin'') (HStr ''https://vidlink.pro'')),
              (''Accept'', HStr ''*/*''),
              (''Accept-Encoding'', HStr ''identity;q=1, *;q=0''),
              (''Connection'', HStr ''keep-alive'')]))"

text \<open>
  To state what the handlers do with a parsed value \<open>custom\<close>: the request headers of
  the \<open>server.js\<close> handler given its \<open>Referer\<close> and \<open>Origin\<close>; the prototype the
  headers object has after the assignment of a \<open>__proto__\<close> entry, if any; and the value
  the client supplies for a key, as an entry or through the \<open>__proto__\<close> entry.
\<close>

definition browser_outbound :: "hval \<Rightarrow> hval \<Rightarrow> (string \<times> hval) list" where
  "browser_outbound referer origin =
      [(''User-Agent'', HStr ''Mozilla/5.0 (Windows NT 10.0; Win64; x64) AppleWebKit/537.36 (KHTML, like Gecko) Chrome/91.0.4472.124 Safari/537.36''),
       (''Referer'', referer),
       (''Origin'', origin),
       (''Accept'', HStr ''*/*''),
       (''Accept-Encoding'', HStr ''identity;q=1, *;q=0''),
       (''Connection'', HStr ''keep-alive'')]"

definition proto_after :: "hval option \<Rightarrow> prototype" where
  "proto_after v =
     (case v of
        Some (HObj es) \<Rightarrow> ProtoObj es
      | Some HNull \<Rightarrow> NullPrototype
      | _ \<Rightarrow> ObjectPrototype)"

definition client_value :: "(string \<times> hval) list \<Rightarrow> string \<Rightarrow> hval option" where
  "client_value custom k =
     (case map_of custom k of
        Some v \<Rightarrow> Some v
      | None \<Rightarrow> (case map_of custom ''__proto__'' of Some (HObj es) \<Rightarrow> map_of es k | _ \<Rightarrow> None))"

definition not_proto :: "string \<times> hval \<Rightarrow> bool" where
  "not_proto e = (fst e \<noteq> ''__proto__'')"

fun own_assign :: "(string \<times> hval) list \<Rightarrow> (string \<times> hval) list \<Rightarrow> (string \<times> hval) list" where
  "own_assign t [] = t"
| "own_assign t ((k, v) # src) = own_assign (own_set t k v) src"

text \<open>A JSON parser for concrete runs: it knows two documents.\<close>

definition sample_parseJSON :: "string \<Rightarrow> (string \<times> hval) list option" where
  "sample_parseJSON j =
     (if j = ''{'' @ dq @ ''Referer'' @ dq @ '':'' @ dq @ ''https://evil.example/'' @ dq @ ''}''
      then Some [(''Referer'', HStr ''https://evil.example/'')]
      else if j = ''{'' @ dq @ ''__proto__'' @ dq @ '':{'' @ dq @ ''referer'' @ dq @ '':'' @ dq
                   @ ''https://evil.example/'' @ dq @ ''}}''
      then Some [(''__proto__'', HObj [(''referer'', HStr ''https://evil.example/'')])]
      else None)"

section \<open>The \<open>/api/stream\<close> proxy of \<open>server.js\<close>: resources\<close>

text \<open>
  Which of the handler's awaited calls resolve. \<open>goto_ok\<close> covers \<open>setUserAgent\<close>,
  \<open>setViewport\<close> and \<open>page.goto\<close>; \<open>video_found\<close> says that the race resolves with a
  truthy video URL. Both upstream requests have \<open>validateStatus: null\<close>, so they reject
  only without a response.
\<close>

record stream_world =
  launch_ok :: bool
  newpage_ok :: bool
  goto_ok :: bool
  video_found :: bool
  cookies_ok :: bool
  close_ok :: bool
  first_fetch_ok :: bool
  url_valid :: bool
  second_fetch_ok :: bool

datatype resource_event =
  BrowserLaunched | PageOpened | BrowserClosed | StreamOpened | StreamPiped | StreamDestroyed
  | Sent nat | FinallyThrows

text \<open>
  The \<open>catch\<close> block answers 500 (no caught error carries a response), and the
  \<open>finally\<close> block reads \<open>response\<close>, a \<open>const\<close> of the \<open>try\<close> block that is out of
  scope there: a ReferenceError on every path, before \<open>response.data.destroy()\<close>.
\<close>

definition caught :: "resource_event list" where
  "caught = [Sent 500, FinallyThrows]"

text \<open>
  The handler's effects, in order. \<open>url_present\<close> is the truthiness of \<open>req.query.url\<close>.
  The second request is made and then its result is assigned to the \<open>const response\<close>,
  which throws a TypeError: the range code after it is never reached.
\<close>

definition api_stream_browser :: "stream_world \<Rightarrow> bool \<Rightarrow> resource_event list" where
  "api_stream_browser w url_present =
     (if \<not> launch_ok w then caught
      else if \<not> newpage_ok w then [BrowserLaunched] @ caught
      else if \<not> (url_present \<and> goto_ok w) then [BrowserLaunched, PageOpened] @ caught
      else if \<not> video_found w then [BrowserLaunched, PageOpened] @ caught
      else if \<not> cookies_ok w then [BrowserLaunched, PageOpened] @ caught
      else if \<not> close_ok w then [BrowserLaunched, PageOpened] @ caught
      else if \<not> first_fetch_ok w then [BrowserLaunched, PageOpened, BrowserClosed] @ caught
      else if \<not> url_present then
        [BrowserLaunched, PageOpened, BrowserClosed, StreamOpened, Sent 400, FinallyThrows]
      else if \<not> url_valid w then
        [BrowserLaunched, PageOpened, BrowserClosed, StreamOpened] @ caught
      else if \<not> second_fetch_ok w then
        [BrowserLaunched, PageOpened, BrowserClosed, StreamOpened] @ caught
      else [BrowserLaunched, PageOpened, BrowserClosed, StreamOpened, StreamOpened] @ caught)"

section \<open>Properties of the string primitives\<close>

lemma split_on_not_Nil: "split_on sep s \<noteq> []"
  by (induction s) (auto split: list.splits)

lemma split_on_no_sep: "l \<in> set (split_on sep s) \<Longrightarrow> sep \<notin> set l"
  by (induction s arbitrary: l) (auto split: list.splits if_splits)

lemma split_on_plain: "sep \<notin> set a \<Longrightarrow> split_on sep a = [a]"
  by (induction a) auto

lemma split_on_append: "sep \<notin> set a \<Longrightarrow> split_on sep (a @ sep # b) = a # split_on sep b"
  by (induction a) auto

lemma split_join:
  "xs \<noteq> [] \<Longrightarrow> \<forall>x\<in>set xs. sep \<notin> set x \<Longrightarrow> split_on sep (join_on sep xs) = xs"
  by (induction sep xs rule: join_on.induct) (auto simp: split_on_plain split_on_append)

lemma set_trimStart: "set (trimStart s) \<subseteq> set s"
  by (induction s rule: trimStart.induct) auto

lemma set_trimEnd_rev: "set (trimEnd_rev s) \<subseteq> set s"
  by (induction s rule: trimEnd_rev.induct) auto

lemma set_trim: "set (trim s) \<subseteq> set s"
  using set_trimStart[of s] set_trimEnd_rev[of "rev (trimStart s)"] by (auto simp: trim_def)

lemma hex_digit_in: "hex_digit n \<in> set ''0123456789ABCDEF''"
proof -
  have "n mod 16 < length ''0123456789ABCDEF''" by simp
  then show ?thesis unfolding hex_digit_def by (rule nth_mem)
qed

lemma set_encodeURIComponent:
  "c \<in> set (encodeURIComponent s) \<Longrightarrow>
     uri_unreserved c \<or> c = CHR ''%'' \<or> c \<in> set ''0123456789ABCDEF''"
  using hex_digit_in by (auto simp: encodeURIComponent_def pct_encode_def split: if_splits)

lemma encodeURIComponent_avoids:
  "nl \<notin> set (encodeURIComponent s)" "CHR ''&'' \<notin> set (encodeURIComponent s)"
  "CHR ''='' \<notin> set (encodeURIComponent s)"
  using set_encodeURIComponent[of _ s] by (auto simp: uri_unreserved_def nl_def)


lemma pct_tokens_lit:
  "c \<noteq> CHR ''%'' \<Longrightarrow> pct_tokens (c # r) = map_option ((#) (Lit c)) (pct_tokens r)"
  by (cases r rule: pct_tokens.cases) auto

lemma all_below_16:
  "(\<forall>n<16. P (n::nat)) =
     (P 0 \<and> P 1 \<and> P 2 \<and> P 3 \<and> P 4 \<and> P 5 \<and> P 6 \<and> P 7 \<and> P 8 \<and> P 9 \<and> P 10 \<and> P 11 \<and> P 12
      \<and> P 13 \<and> P 14 \<and> P 15)"
  by (simp add: numeral_eq_Suc less_Suc_eq all_conj_distrib)

lemma hex_val_hex_digit_all: "\<forall>n<16. hex_val (hex_digit n) = Some n"
  unfolding all_below_16 by (simp add: hex_val_def hex_digit_def)

lemma hex_val_hex_digit: "n < 16 \<Longrightarrow> hex_val (hex_digit n) = Some n"
  using hex_val_hex_digit_all by blast

lemma pct_tokens_escape:
  "pct_tokens (pct_encode c @ r) = map_option ((#) (Pct (of_char c))) (pct_tokens r)"
proof -
  have a: "hex_val (hex_digit ((of_char c :: nat) div 16)) = Some ((of_char c :: nat) div 16)"
    by (rule hex_val_hex_digit) (simp add: less_mult_imp_div_less)
  have b: "hex_val (hex_digit ((of_char c :: nat) mod 16)) = Some ((of_char c :: nat) mod 16)"
    by (rule hex_val_hex_digit) simp
  show ?thesis by (simp add: pct_encode_def a b)
qed

lemma pct_tokens_encode: "pct_tokens (encodeURIComponent s) = Some (map tok s)"
proof (induction s)
  case Nil
  then show ?case by (simp add: encodeURIComponent_def)
next
  case (Cons c s)
  have ih: "pct_tokens (encodeURIComponent s) = Some (map tok s)" by (rule Cons.IH)
  show ?case
  proof (cases "uri_unreserved c")
    case True
    then have "c \<noteq> CHR ''%''" by (auto simp: uri_unreserved_def)
    moreover have "encodeURIComponent (c # s) = c # encodeURIComponent s"
      using True by (simp add: encodeURIComponent_def)
    ultimately show ?thesis using True ih by (simp add: pct_tokens_lit tok_def)
  next
    case False
    then have "encodeURIComponent (c # s) = pct_encode c @ encodeURIComponent s"
      by (simp add: encodeURIComponent_def)
    then show ?thesis using False ih by (simp add: pct_tokens_escape tok_def)
  qed
qed

lemma unreserved_ascii: "uri_unreserved c \<Longrightarrow> (of_char c :: nat) < 0x80"
  by (auto simp: uri_unreserved_def)

lemma tok_high: "0x80 \<le> (of_char c :: nat) \<Longrightarrow> tok c = Pct (of_char c)"
  using unreserved_ascii[of c] by (auto simp: tok_def)

lemma assemble_tok_low:
  "(of_char c :: nat) < 0x80 \<Longrightarrow> utf8_assemble (tok c # ts) = map_option ((#) c) (utf8_assemble ts)"
  by (simp add: tok_def)

lemma char_of_eq: "(of_char c :: nat) = n \<Longrightarrow> char_of n = c"
  by auto

lemma utf8_assemble_tok: "utf8_wf s \<Longrightarrow> utf8_assemble (map tok s) = Some s"
proof (induction s rule: utf8_wf.induct)
  case 1
  then show ?case by simp
next
  case (2 c cs)
  let ?b = "of_char c :: nat"
  consider (one) "?b < 0x80" | (two) "0xC2 \<le> ?b \<and> ?b \<le> 0xDF"
    | (three) "0xE0 \<le> ?b \<and> ?b \<le> 0xEF" | (four) "0xF0 \<le> ?b \<and> ?b \<le> 0xF4"
    using "2.prems" by (auto simp: Let_def split: if_splits)
  then show ?case
  proof cases
    case one
    then show ?thesis using 2 by (simp add: assemble_tok_low)
  next
    case two
    then have hi: "tok c = Pct ?b" by (simp add: tok_high)
    from two "2.prems" obtain c1 r where cs: "cs = c1 # r"
      and c1: "0x80 \<le> (of_char c1 :: nat)" "(of_char c1 :: nat) \<le> 0xBF" and r: "utf8_wf r"
      by (auto simp: Let_def cont_byte_def split: list.splits)
    have "utf8_assemble (map tok r) = Some r"
      using "2.IH"(2)[of ?b c1 r] two cs r by simp
    then show ?thesis using two hi cs c1 by (simp add: tok_high cont_byte_def)
  next
    case three
    then have hi: "tok c = Pct ?b" by (simp add: tok_high)
    from three "2.prems" obtain c1 c2 r where cs: "cs = c1 # c2 # r"
      and c1: "cont_byte (if ?b = 0xE0 then 0xA0 else 0x80) (if ?b = 0xED then 0x9F else 0xBF) (of_char c1)"
      and c2: "0x80 \<le> (of_char c2 :: nat)" "(of_char c2 :: nat) \<le> 0xBF" and r: "utf8_wf r"
      by (auto simp: Let_def cont_byte_def split: list.splits)
    from c1 have c1h: "0x80 \<le> (of_char c1 :: nat)"
      by (auto simp: cont_byte_def split: if_splits)
    have "utf8_assemble (map tok r) = Some r"
      using "2.IH"(3)[of ?b c1 "c2 # r" c2 r] three cs c1 c2 r by (simp add: cont_byte_def)
    then show ?thesis using three hi cs c1 c1h c2 by (simp add: tok_high cont_byte_def)
  next
    case four
    then have hi: "tok c = Pct ?b" by (simp add: tok_high)
    from four "2.prems" obtain c1 c2 c3 r where cs: "cs = c1 # c2 # c3 # r"
      and c1: "cont_byte (if ?b = 0xF0 then 0x90 else 0x80) (if ?b = 0xF4 then 0x8F else 0xBF) (of_char c1)"
      and c2: "0x80 \<le> (of_char c2 :: nat)" "(of_char c2 :: nat) \<le> 0xBF"
      and c3: "0x80 \<le> (of_char c3 :: nat)" "(of_char c3 :: nat) \<le> 0xBF" and r: "utf8_wf r"
      by (auto simp: Let_def cont_byte_def split: list.splits)
    from c1 have c1h: "0x80 \<le> (of_char c1 :: nat)"
      by (auto simp: cont_byte_def split: if_splits)
    have "utf8_assemble (map tok r) = Some r"
      using "2.IH"(4)[of ?b c1 "c2 # c3 # r" c2 "c3 # r" c3 r] four cs c1 c2 c3 r
      by (simp add: cont_byte_def)
    then show ?thesis using four hi cs c1 c1h c2 c3 by (simp add: tok_high cont_byte_def)
  qed
qed

lemma decode_encode: "utf8_wf s \<Longrightarrow> decodeURIComponent (encodeURIComponent s) = Some s"
  by (simp add: decodeURIComponent_def pct_tokens_encode utf8_assemble_tok)

section \<open>Properties of stream selection\<close>

lemma best_m3u8_loop_find:
  "best_m3u8_loop us best = (case find has_marker us of Some u \<Rightarrow> u | None \<Rightarrow> best)"
  by (induction us) simp_all

text \<open>
  C4. Selection prefers the hls list over the direct list. Within a non-empty hls list
  the first entry containing one of the markers \<open>MTA4MA==\<close> or \<open>NzIw\<close> is chosen,
  wherever it was captured; without any marked entry the first captured hls entry is
  chosen. The direct list is consulted only when the hls list is empty.
\<close>

theorem select_stream_prefers_marked_hls:
  "select_stream c =
     (case m3u8 c of
        h # t \<Rightarrow> (case find has_marker (m3u8 c) of Some u \<Rightarrow> Some u | None \<Rightarrow> Some h)
      | [] \<Rightarrow> (case mp4 c of d # _ \<Rightarrow> Some d | [] \<Rightarrow> None))"
  by (simp add: select_stream_def best_m3u8_loop_find split: list.splits option.splits)

section \<open>Properties of the playlist rewrite\<close>

lemmas str_eval = trim_def ws1_def ws2_def ws3_def startsWith_def endsWith_def nl_def
  sample_parseURL_def sample_resolveURL_def js_or_def
lemmas enc_eval = encodeURIComponent_def uri_unreserved_def pct_encode_def hex_digit_def

lemma rewrite_line_no_nl: "nl \<notin> set line \<Longrightarrow> nl \<notin> set (rewrite_line P R url referer line)"
  using set_trim[of line] encodeURIComponent_avoids(1)
  by (auto simp: rewrite_line_def Let_def nl_def split: option.splits)

lemma rewrite_playlist_lines:
  "split_on nl (rewrite_playlist P R url referer body)
     = map (rewrite_line P R url referer) (split_on nl body)"
  unfolding rewrite_playlist_def
proof (rule split_join)
  show "map (rewrite_line P R url referer) (split_on nl body) \<noteq> []"
    by (simp add: split_on_not_Nil)
  show "\<forall>x\<in>set (map (rewrite_line P R url referer) (split_on nl body)). nl \<notin> set x"
    using split_on_no_sep rewrite_line_no_nl by fastforce
qed

text \<open>
  C1 (as the code has it). The rewritten playlist has the lines of the fetched one, one
  for one and in order, each the image of its input line. A line that is empty or starts
  with \<open>#\<close> once trimmed is emitted trimmed: verbatim when it carries no surrounding
  white space, and without it otherwise. A line for which the URL constructor throws (on
  the manifest URL or on the line) is emitted trimmed as well, and the rewrite goes on.
\<close>

theorem rewrite_playlist_keeps_lines:
  "split_on nl (rewrite_playlist P R url referer body)
     = map (rewrite_line P R url referer) (split_on nl body)
   \<and> length (split_on nl (rewrite_playlist P R url referer body)) = length (split_on nl body)
   \<and> (\<forall>line. trim line = [] \<or> startsWith (trim line) ''#''
         \<longrightarrow> rewrite_line P R url referer line = trim line)
   \<and> (\<forall>line. P url = None \<or> (\<exists>base. P url = Some base \<and> R (trim line) base = None)
         \<longrightarrow> rewrite_line P R url referer line = trim line)"
proof -
  have a: "split_on nl (rewrite_playlist P R url referer body)
     = map (rewrite_line P R url referer) (split_on nl body)"
    by (rule rewrite_playlist_lines)
  have b: "\<forall>line. trim line = [] \<or> startsWith (trim line) ''#''
         \<longrightarrow> rewrite_line P R url referer line = trim line"
    by (auto simp: rewrite_line_def Let_def)
  have c: "\<forall>line. P url = None \<or> (\<exists>base. P url = Some base \<and> R (trim line) base = None)
         \<longrightarrow> rewrite_line P R url referer line = trim line"
    by (auto simp: rewrite_line_def Let_def)
  from a have "length (split_on nl (rewrite_playlist P R url referer body)) = length (split_on nl body)"
    by simp
  with a b c show ?thesis by blast
qed

text \<open>
  The theorem at a comment line with surrounding white space, at a line the URL
  constructor rejects, and at a three-line playlist.
\<close>

theorem rewrite_playlist_keeps_lines_witness:
  "startsWith (trim (''  #EXT-X-ENDLIST'' @ [CHR 0x0D])) ''#''
   \<and> rewrite_line sample_parseURL sample_resolveURL ''https://host/path/index.m3u8'' None
        (''  #EXT-X-ENDLIST'' @ [CHR 0x0D]) = ''#EXT-X-ENDLIST''
   \<and> sample_parseURL ''https://host/path/index.m3u8'' = Some ''https://host/path/index.m3u8''
   \<and> sample_resolveURL (trim ''http://'') ''https://host/path/index.m3u8'' = None
   \<and> rewrite_line sample_parseURL sample_resolveURL ''https://host/path/index.m3u8'' None
        ''http://'' = ''http://''
   \<and> length (split_on nl (rewrite_playlist sample_parseURL sample_resolveURL
        ''https://host/path/index.m3u8'' None (''#EXTM3U'' @ [nl] @ ''seg1.ts'' @ [nl] @ ''http://''))) = 3"
proof -
  note t = rewrite_playlist_keeps_lines[of sample_parseURL sample_resolveURL
      "''https://host/path/index.m3u8''" None "''#EXTM3U'' @ [nl] @ ''seg1.ts'' @ [nl] @ ''http://''"]
  have c: "startsWith (trim (''  #EXT-X-ENDLIST'' @ [CHR 0x0D])) ''#''"
    by (simp add: str_eval)
  have tc: "trim (''  #EXT-X-ENDLIST'' @ [CHR 0x0D]) = ''#EXT-X-ENDLIST''"
    by (simp add: str_eval)
  have p: "sample_parseURL ''https://host/path/index.m3u8'' = Some ''https://host/path/index.m3u8''"
    by (simp add: str_eval)
  have th: "trim ''http://'' = ''http://''"
    by (simp add: str_eval)
  have r: "sample_resolveURL (trim ''http://'') ''https://host/path/index.m3u8'' = None"
    by (simp add: str_eval)
  have n: "length (split_on nl (''#EXTM3U'' @ [nl] @ ''seg1.ts'' @ [nl] @ ''http://'')) = 3"
    by (simp add: nl_def)
  from t c have 1: "rewrite_line sample_parseURL sample_resolveURL ''https://host/path/index.m3u8'' None
        (''  #EXT-X-ENDLIST'' @ [CHR 0x0D]) = trim (''  #EXT-X-ENDLIST'' @ [CHR 0x0D])"
    by blast
  from t p r have 2: "rewrite_line sample_parseURL sample_resolveURL ''https://host/path/index.m3u8'' None
        ''http://'' = trim ''http://''"
    by blast
  from t n have 3: "length (split_on nl (rewrite_playlist sample_parseURL sample_resolveURL
        ''https://host/path/index.m3u8'' None (''#EXTM3U'' @ [nl] @ ''seg1.ts'' @ [nl] @ ''http://''))) = 3"
    by simp
  from c 1 tc p r 2 th 3 show ?thesis by simp
qed

text \<open>
  A playlist with CRLF line ends: the comment line \<open>#EXTM3U\<close> followed by a carriage
  return comes out without the carriage return, so it is not preserved verbatim.
\<close>

theorem comment_line_not_verbatim:
  "split_on nl (''#EXTM3U'' @ [CHR 0x0D, nl] @ ''seg1.ts'') = [''#EXTM3U'' @ [CHR 0x0D], ''seg1.ts'']
   \<and> startsWith (trim (''#EXTM3U'' @ [CHR 0x0D])) ''#''
   \<and> split_on nl (rewrite_playlist sample_parseURL sample_resolveURL
        ''https://host/path/index.m3u8'' None (''#EXTM3U'' @ [CHR 0x0D, nl] @ ''seg1.ts''))
      = [''#EXTM3U'',
         ''/api/video-proxy?url=https%3A%2F%2Fhost%2Fpath%2Fseg1.ts&referer=https%3A%2F%2Fhost%2Fpath%2Findex.m3u8'']"
  by (simp add: rewrite_playlist_def rewrite_line_def str_eval enc_eval)

lemma query_pairs_first:
  assumes "CHR ''?'' \<notin> set p" "CHR ''&'' \<notin> set k" "CHR ''='' \<notin> set k" "CHR ''&'' \<notin> set v"
  shows "map_of (query_pairs (p @ CHR ''?'' # k @ CHR ''='' # v @ CHR ''&'' # rest)) k = Some v"
proof -
  have "dropWhile (\<lambda>c. c \<noteq> CHR ''?'') (p @ CHR ''?'' # k @ CHR ''='' # v @ CHR ''&'' # rest)
          = CHR ''?'' # k @ CHR ''='' # v @ CHR ''&'' # rest"
    using assms(1) by (subst dropWhile_append2) auto
  moreover have "split_on (CHR ''&'') ((k @ CHR ''='' # v) @ CHR ''&'' # rest)
          = (k @ CHR ''='' # v) # split_on (CHR ''&'') rest"
    using assms(2,4) by (intro split_on_append) auto
  moreover have "takeWhile (\<lambda>c. c \<noteq> CHR ''='') (k @ CHR ''='' # v) = k"
    using assms(3) by (subst takeWhile_append2) auto
  moreover have "dropWhile (\<lambda>c. c \<noteq> CHR ''='') (k @ CHR ''='' # v) = CHR ''='' # v"
    using assms(3) by (subst dropWhile_append2) auto
  ultimately show ?thesis by (simp add: query_pairs_def)
qed

text \<open>
  C2. For a line that is neither empty nor a comment once trimmed and that resolves
  against the manifest's own URL \<open>url\<close>, the rewritten line is the proxy path with the
  encoded resolution, and its \<open>url\<close> query parameter decodes to that resolution. The
  handler reads no other URL: the base is \<open>new URL(url)\<close>. (A URL serialisation is ASCII,
  so well-formed.)
\<close>

theorem rewritten_line_wraps_resolution:
  assumes "trim line \<noteq> []" "\<not> startsWith (trim line) ''#''"
    and "P url = Some base" "R (trim line) base = Some segUrl" "utf8_wf segUrl"
  shows "rewrite_line P R url referer line
           = ''/api/video-proxy?url='' @ encodeURIComponent segUrl
               @ ''&referer='' @ encodeURIComponent (js_or referer url)
         \<and> query_param ''url'' (rewrite_line P R url referer line) = Some segUrl"
proof -
  let ?E = "encodeURIComponent segUrl"
  let ?rest = "''referer='' @ encodeURIComponent (js_or referer url)"
  have line: "rewrite_line P R url referer line = ''/api/video-proxy?url='' @ ?E @ ''&referer='' @ encodeURIComponent (js_or referer url)"
    using assms(1-4) by (simp add: rewrite_line_def Let_def)
  have shape: "''/api/video-proxy?url='' @ ?E @ ''&referer='' @ encodeURIComponent (js_or referer url)
      = ''/api/video-proxy'' @ CHR ''?'' # ''url'' @ CHR ''='' # ?E @ CHR ''&'' # ?rest"
    by simp
  have "map_of (query_pairs (''/api/video-proxy'' @ CHR ''?'' # ''url'' @ CHR ''='' # ?E @ CHR ''&'' # ?rest)) ''url''
      = Some ?E"
    by (rule query_pairs_first) (simp_all add: encodeURIComponent_avoids)
  then have "query_param ''url'' (rewrite_line P R url referer line) = decodeURIComponent ?E"
    unfolding line shape by (simp add: query_param_def)
  then show ?thesis using line assms(5) by (simp add: decode_encode)
qed

text \<open>
  The line \<open>seg1.ts\<close> of a manifest fetched from \<open>https://host/path/index.m3u8\<close>,
  with the page URL passed as referer: the \<open>url\<close> parameter is the segment resolved
  against the manifest.
\<close>

theorem rewritten_line_wraps_resolution_witness:
  "trim ''seg1.ts'' \<noteq> [] \<and> \<not> startsWith (trim ''seg1.ts'') ''#''
   \<and> sample_parseURL ''https://host/path/index.m3u8'' = Some ''https://host/path/index.m3u8''
   \<and> sample_resolveURL (trim ''seg1.ts'') ''https://host/path/index.m3u8''
        = Some ''https://host/path/seg1.ts''
   \<and> utf8_wf ''https://host/path/seg1.ts''
   \<and> query_param ''url'' (rewrite_line sample_parseURL sample_resolveURL
         ''https://host/path/index.m3u8'' (Some ''https://page.example/movie/1'') ''seg1.ts'')
        = Some ''https://host/path/seg1.ts''"
proof -
  have t: "trim ''seg1.ts'' = ''seg1.ts''" by (simp add: str_eval)
  have a: "trim ''seg1.ts'' \<noteq> []" by (simp add: t)
  have b: "\<not> startsWith (trim ''seg1.ts'') ''#''" by (simp add: t startsWith_def)
  have p: "sample_parseURL ''https://host/path/index.m3u8'' = Some ''https://host/path/index.m3u8''"
    by (simp add: str_eval)
  have r: "sample_resolveURL (trim ''seg1.ts'') ''https://host/path/index.m3u8''
        = Some ''https://host/path/seg1.ts''"
    by (simp add: t) (simp add: str_eval)
  have w: "utf8_wf ''https://host/path/seg1.ts''" by simp
  have q: "query_param ''url'' (rewrite_line sample_parseURL sample_resolveURL
         ''https://host/path/index.m3u8'' (Some ''https://page.example/movie/1'') ''seg1.ts'')
        = Some ''https://host/path/seg1.ts''"
    using rewritten_line_wraps_resolution[where P = sample_parseURL and R = sample_resolveURL
        and line = "''seg1.ts''" and url = "''https://host/path/index.m3u8''"
        and base = "''https://host/path/index.m3u8''" and segUrl = "''https://host/path/seg1.ts''"
        and referer = "Some ''https://page.example/movie/1''", OF a b p r w]
    by (rule conjunct2)
  from a b p r w q show ?thesis by blast
qed

section \<open>Properties of the proxy's dispatch and binary branch\<close>

text \<open>The manifest branch is taken exactly for the strings whose last five characters
  are \<open>.m3u8\<close> in some mix of cases.\<close>

lemma suffix_map_iff: "suffix x (map f ys) \<longleftrightarrow> (\<exists>p s. ys = p @ s \<and> map f s = x)"
proof
  assume "suffix x (map f ys)"
  then obtain a where "map f ys = a @ x" by (auto simp: suffix_def)
  then obtain us vs where "ys = us @ vs" "x = map f vs"
    unfolding map_eq_append_conv by blast
  then show "\<exists>p s. ys = p @ s \<and> map f s = x" by blast
next
  assume "\<exists>p s. ys = p @ s \<and> map f s = x"
  then obtain p s where "ys = p @ s" "map f s = x" by blast
  then have "map f ys = map f p @ x" by simp
  then show "suffix x (map f ys)" by (simp add: suffix_def)
qed

lemma is_playlist_url_iff:
  "is_playlist_url url \<longleftrightarrow> (\<exists>p s. url = p @ s \<and> toLowerCase s = ''.m3u8'')"
  unfolding is_playlist_url_def endsWith_def toLowerCase_def suffix_to_prefix[symmetric]
  by (rule suffix_map_iff)

text \<open>
  C3. The dispatch tests the whole \<open>url\<close> string, not its path: a manifest URL that
  carries a query string does not end in \<open>.m3u8\<close>, and its playlist is streamed as it
  is, its relative segment line not rewritten.
\<close>

theorem playlist_url_with_query_is_streamed:
  "\<not> is_playlist_url ''https://host/path/index.m3u8?token=1''
   \<and> video_proxy sample_parseURL sample_resolveURL (\<lambda>u h. Resolved 200 [] ''seg1.ts'')
        \<lparr>query_url = Some ''https://host/path/index.m3u8?token=1'', query_referer = None,
         header_range = None\<rparr>
      = \<lparr>res_status = 200, res_headers = [(''Access-Control-Allow-Origin'', ''*'')],
         res_body = Piped ''seg1.ts''\<rparr>"
  by (simp add: video_proxy_def is_playlist_url_def toLowerCase_def lower_char_def truthy_def
      axios_get_def copy_header_def str_eval)

lemma map_of_copy_other:
  "name \<noteq> k' \<Longrightarrow> map_of (copy_header rhs k name @ rest) k' = map_of rest k'"
  by (simp add: copy_header_def split: option.splits)

text \<open>
  C7 (as the code has it). On the binary branch the inbound \<open>Range\<close> header is
  forwarded to the upstream, and the response takes the upstream's status, body and
  \<open>Content-Range\<close> as they are: \<open>206\<close> with a \<open>Content-Range\<close> exactly when the
  upstream answers so, \<open>200\<close> with the whole body when it answers \<open>200\<close>.
\<close>

theorem binary_branch_passes_upstream_through:
  assumes "query_url req = Some url" "url \<noteq> []" "\<not> is_playlist_url url"
    and "upstream url (forwardHeaders req) = Resolved st rhs d" "200 \<le> st" "st < 400"
  shows "res_status (video_proxy P R upstream req) = st
       \<and> res_body (video_proxy P R upstream req) = Piped d
       \<and> map_of (res_headers (video_proxy P R upstream req)) ''Content-Range''
           = (case map_of rhs ''content-range'' of
                None \<Rightarrow> None | Some v \<Rightarrow> if v = [] then None else Some v)
       \<and> map_of (forwardHeaders req) ''Range''
           = (case header_range req of
                None \<Rightarrow> None | Some r \<Rightarrow> if r = [] then None else Some r)"
proof -
  have v: "video_proxy P R upstream req =
      \<lparr>res_status = st,
       res_headers =
         copy_header rhs ''content-type'' ''Content-Type''
         @ copy_header rhs ''content-length'' ''Content-Length''
         @ copy_header rhs ''accept-ranges'' ''Accept-Ranges''
         @ copy_header rhs ''content-range'' ''Content-Range''
         @ [(''Access-Control-Allow-Origin'', ''*'')],
       res_body = Piped d\<rparr>"
    using assms by (simp add: video_proxy_def truthy_def js_or_def axios_get_def)
  have h: "map_of (res_headers (video_proxy P R upstream req)) ''Content-Range''
           = (case map_of rhs ''content-range'' of
                None \<Rightarrow> None | Some v \<Rightarrow> if v = [] then None else Some v)"
    unfolding v by (simp add: map_of_copy_other) (simp add: copy_header_def split: option.splits)
  have f: "map_of (forwardHeaders req) ''Range''
           = (case header_range req of
                None \<Rightarrow> None | Some r \<Rightarrow> if r = [] then None else Some r)"
    by (simp add: forwardHeaders_def split: option.splits)
  from v h f show ?thesis by simp
qed

text \<open>An upstream that honours \<open>Range: bytes=100-199\<close> with a \<open>206\<close>.\<close>

theorem binary_branch_passes_upstream_through_witness:
  "res_status (video_proxy sample_parseURL sample_resolveURL
       (\<lambda>u h. if map_of h ''Range'' = Some ''bytes=100-199''
          then Resolved 206 [(''content-range'', ''bytes 100-199/5000'')] ''x''
          else Resolved 200 [] ''y'')
       \<lparr>query_url = Some ''https://cdn.example/video.mp4'', query_referer = None,
         header_range = Some ''bytes=100-199''\<rparr>) = 206
   \<and> map_of (res_headers (video_proxy sample_parseURL sample_resolveURL
       (\<lambda>u h. if map_of h ''Range'' = Some ''bytes=100-199''
          then Resolved 206 [(''content-range'', ''bytes 100-199/5000'')] ''x''
          else Resolved 200 [] ''y'')
       \<lparr>query_url = Some ''https://cdn.example/video.mp4'', query_referer = None,
         header_range = Some ''bytes=100-199''\<rparr>)) ''Content-Range'' = Some ''bytes 100-199/5000''"
proof -
  let ?up = "\<lambda>(u::string) (h::headers). if map_of h ''Range'' = Some ''bytes=100-199''
          then Resolved 206 [(''content-range'', ''bytes 100-199/5000'')] ''x''
          else Resolved 200 [] ''y''"
  let ?req = "\<lparr>query_url = Some ''https://cdn.example/video.mp4'', query_referer = None,
         header_range = Some ''bytes=100-199''\<rparr>"
  have 1: "query_url ?req = Some ''https://cdn.example/video.mp4''" by simp
  have 2: "''https://cdn.example/video.mp4'' \<noteq> []" by simp
  have 3: "\<not> is_playlist_url ''https://cdn.example/video.mp4''"
    by (simp add: is_playlist_url_def toLowerCase_def lower_char_def endsWith_def)
  have 4: "?up ''https://cdn.example/video.mp4'' (forwardHeaders ?req)
      = Resolved 206 [(''content-range'', ''bytes 100-199/5000'')] ''x''"
    by (simp add: forwardHeaders_def)
  have 5: "(200::nat) \<le> 206" "(206::nat) < 400" by simp_all
  show ?thesis
    using binary_branch_passes_upstream_through[where P = sample_parseURL and R = sample_resolveURL
        and upstream = ?up and req = ?req, OF 1 2 3 4 5]
    by simp
qed

text \<open>
  An upstream that ignores the \<open>Range\<close> header and answers \<open>200\<close>: the response to
  the range request is \<open>200\<close> without \<open>Content-Range\<close>, not \<open>206\<close>.
\<close>

theorem range_request_answered_200:
  "res_status (video_proxy sample_parseURL sample_resolveURL
       (\<lambda>u h. Resolved 200 [(''content-length'', ''5000'')] ''full body'')
       \<lparr>query_url = Some ''https://cdn.example/video.mp4'', query_referer = None,
         header_range = Some ''bytes=100-199''\<rparr>) = 200
   \<and> map_of (res_headers (video_proxy sample_parseURL sample_resolveURL
       (\<lambda>u h. Resolved 200 [(''content-length'', ''5000'')] ''full body'')
       \<lparr>query_url = Some ''https://cdn.example/video.mp4'', query_referer = None,
         header_range = Some ''bytes=100-199''\<rparr>)) ''Content-Range'' = None"
  by (simp add: video_proxy_def is_playlist_url_def toLowerCase_def lower_char_def truthy_def
      axios_get_def copy_header_def endsWith_def js_or_def)

section \<open>Properties of the multi-source resolver\<close>

lemma tried_append: "tried (a @ b) = tried a @ tried b"
  by (simp add: tried_def)

lemma tried_simps:
  "tried [] = []" "tried (Trying n # ev) = n # tried ev" "tried (Opened u # ev) = tried ev"
  "tried (Closed u # ev) = tried ev" "tried (close_if page) = []"
  by (cases page; simp add: tried_def close_if_def)+

lemma opened_append: "opened (a @ b) = opened a @ opened b"
  by (simp add: opened_def)

lemma opened_simps:
  "opened [] = []" "opened (Trying n # ev) = opened ev" "opened (Opened u # ev) = u # opened ev"
  "opened (Closed u # ev) = opened ev" "opened (close_if page) = []"
  by (cases page; simp add: opened_def close_if_def)+

lemma try_sources_tried:
  "tried (snd (snd (try_sources w t ss page ev)))
     = tried ev @ map src_name (takeWhile (\<lambda>s. \<not> yields w t s) ss)
        @ map src_name (take 1 (dropWhile (\<lambda>s. \<not> yields w t s) ss))"
proof (induction ss arbitrary: page ev)
  case Nil
  then show ?case by simp
next
  case (Cons s ss)
  show ?case
  proof (cases "yields w t s")
    case True
    then show ?thesis
      by (auto simp: yields_def tried_append tried_simps split: option.splits visit.splits)
  next
    case False
    then show ?thesis
      by (auto simp: yields_def Cons.IH tried_append tried_simps split: option.splits visit.splits)
  qed
qed

lemma try_sources_none:
  "fst (try_sources w t ss page ev) = None \<longleftrightarrow> (\<forall>s\<in>set ss. \<not> yields w t s)"
  by (induction ss arbitrary: page ev)
     (auto simp: yields_def split: option.splits visit.splits)

lemma try_sources_skip:
  "\<forall>s\<in>set ss. source_url t s = None \<Longrightarrow>
     try_sources w t ss page ev = (None, page, ev @ map (\<lambda>s. Trying (src_name s)) ss)"
  by (induction ss arbitrary: ev) simp_all

lemma body_no_provider_name:
  "map_of (ex_body (extract_stream origin world query)) ''sourceProviderName'' = None"
  by (simp add: extract_stream_def Let_def split: prod.splits option.splits)

lemmas resolver_eval = extract_stream_def truthy_def js_or_def Let_def SOURCES_def source_url_def
  movie_id_def match_tv_at_def digits_then_slash_def is_digit_def select_stream_def
  on_request_def emptyCaptured_def has_marker_def close_if_def startsWith_def yields_def

text \<open>
  C5 (as the code has it). For a movie or TV target the sources are tried in the order
  of \<open>SOURCES\<close>, which is the ascending order of their priorities, up to and including
  the first one that yields a stream and no further. When none yields the answer is 404.
  A 200 answer carries the constant \<open>source: 'multiple_sources'\<close>; no answer has a
  \<open>sourceProviderName\<close> field, so the succeeding provider is not named.
\<close>

theorem resolver_tries_sources_in_order:
  assumes "query = Some targetUrl"
    and "js_includes targetUrl ''/movie/'' \<or> js_includes targetUrl ''/tv/''"
  shows "tried (ex_events (extract_stream origin world query))
           = map src_name (takeWhile (\<lambda>s. \<not> yields world targetUrl s) SOURCES)
              @ map src_name (take 1 (dropWhile (\<lambda>s. \<not> yields world targetUrl s) SOURCES))
       \<and> sorted_wrt (<) (map priority SOURCES)
       \<and> ((\<forall>s\<in>set SOURCES. \<not> yields world targetUrl s)
            \<longrightarrow> ex_status (extract_stream origin world query) = 404)
       \<and> (ex_status (extract_stream origin world query) = 200
            \<longrightarrow> map_of (ex_body (extract_stream origin world query)) ''source''
                  = Some (JStr ''multiple_sources''))
       \<and> map_of (ex_body (extract_stream origin world query)) ''sourceProviderName'' = None"
proof -
  from assms(2) have ne: "targetUrl \<noteq> []" by auto
  obtain u p ev where r: "try_sources world targetUrl SOURCES None [] = (u, p, ev)"
    by (cases "try_sources world targetUrl SOURCES None []") auto
  have ev: "ex_events (extract_stream origin world query) = ev @ close_if p"
    using assms ne r
    by (auto simp: extract_stream_def truthy_def js_or_def Let_def split: option.splits)
  have t: "tried ev = map src_name (takeWhile (\<lambda>s. \<not> yields world targetUrl s) SOURCES)
              @ map src_name (take 1 (dropWhile (\<lambda>s. \<not> yields world targetUrl s) SOURCES))"
    using try_sources_tried[of world targetUrl SOURCES None "[]"] r by (simp add: tried_simps)
  have 1: "tried (ex_events (extract_stream origin world query))
           = map src_name (takeWhile (\<lambda>s. \<not> yields world targetUrl s) SOURCES)
              @ map src_name (take 1 (dropWhile (\<lambda>s. \<not> yields world targetUrl s) SOURCES))"
    by (simp add: ev tried_append tried_simps t)
  have 2: "sorted_wrt (<) (map priority SOURCES)" by (simp add: SOURCES_def)
  have 3: "(\<forall>s\<in>set SOURCES. \<not> yields world targetUrl s)
            \<longrightarrow> ex_status (extract_stream origin world query) = 404"
  proof
    assume "\<forall>s\<in>set SOURCES. \<not> yields world targetUrl s"
    then have "u = None" using try_sources_none[of world targetUrl SOURCES None "[]"] r by simp
    then show "ex_status (extract_stream origin world query) = 404"
      using assms ne r by (auto simp: extract_stream_def truthy_def js_or_def Let_def)
  qed
  have 4: "ex_status (extract_stream origin world query) = 200
            \<longrightarrow> map_of (ex_body (extract_stream origin world query)) ''source''
                  = Some (JStr ''multiple_sources'')"
    by (auto simp: extract_stream_def Let_def split: prod.splits option.splits if_splits)
  from 1 2 3 4 body_no_provider_name show ?thesis by blast
qed

text \<open>
  The first source times out, the second yields: both are tried, in this order, and the
  answer is 200; when every visit fails the answer is 404.
\<close>

theorem resolver_tries_sources_in_order_witness:
  "tried (ex_events (extract_stream (\<lambda>u. None) first_times_out (Some ''https://vidlink.pro/movie/550'')))
     = [''vidlink.pro'', ''moviesapi.to'']
   \<and> ex_status (extract_stream (\<lambda>u. None) first_times_out (Some ''https://vidlink.pro/movie/550'')) = 200
   \<and> map_of (ex_body (extract_stream (\<lambda>u. None) first_times_out (Some ''https://vidlink.pro/movie/550'')))
        ''source'' = Some (JStr ''multiple_sources'')
   \<and> ex_status (extract_stream (\<lambda>u. None) (\<lambda>u. PageFails) (Some ''https://vidlink.pro/movie/550'')) = 404"
proof -
  let ?T = "''https://vidlink.pro/movie/550''"
  have b: "js_includes ?T ''/movie/'' \<or> js_includes ?T ''/tv/''" by simp
  note t = resolver_tries_sources_in_order[where query = "Some ?T" and targetUrl = ?T
      and origin = "\<lambda>u. None" and world = first_times_out, OF refl b]
  note f = resolver_tries_sources_in_order[where query = "Some ?T" and targetUrl = ?T
      and origin = "\<lambda>u. None" and world = "\<lambda>u. PageFails", OF refl b]
  have y: "takeWhile (\<lambda>s. \<not> yields first_times_out ?T s) SOURCES = [SOURCES ! 0]"
    "dropWhile (\<lambda>s. \<not> yields first_times_out ?T s) SOURCES = [SOURCES ! 1]"
    by (simp_all add: resolver_eval first_times_out_def)
  have st: "ex_status (extract_stream (\<lambda>u. None) first_times_out (Some ?T)) = 200"
    by (simp add: resolver_eval first_times_out_def)
  have n: "\<forall>s\<in>set SOURCES. \<not> yields (\<lambda>u. PageFails) ?T s"
    by (simp add: yields_def split: option.splits)
  from t have 1: "tried (ex_events (extract_stream (\<lambda>u. None) first_times_out (Some ?T)))
     = [''vidlink.pro'', ''moviesapi.to'']"
    unfolding y by (simp add: SOURCES_def)
  from t st have 2: "map_of (ex_body (extract_stream (\<lambda>u. None) first_times_out (Some ?T)))
        ''source'' = Some (JStr ''multiple_sources'')"
    by blast
  from f n have 3: "ex_status (extract_stream (\<lambda>u. None) (\<lambda>u. PageFails) (Some ?T)) = 404"
    by blast
  from 1 st 2 3 show ?thesis by blast
qed

text \<open>
  In the same run the second provider, \<open>moviesapi.to\<close>, succeeds, and the response does
  not report it as \<open>sourceProviderName\<close>.
\<close>

theorem response_names_no_provider:
  "first_times_out ''https://vidlink.pro/movie/550?nextbutton=true'' = PageFails
   \<and> yields first_times_out ''https://vidlink.pro/movie/550'' (SOURCES ! 1)
   \<and> src_name (SOURCES ! 1) = ''moviesapi.to''
   \<and> ex_status (extract_stream (\<lambda>u. None) first_times_out (Some ''https://vidlink.pro/movie/550'')) = 200
   \<and> map_of (ex_body (extract_stream (\<lambda>u. None) first_times_out (Some ''https://vidlink.pro/movie/550'')))
        ''sourceProviderName'' \<noteq> Some (JStr ''moviesapi.to'')"
  by (simp add: resolver_eval first_times_out_def)

text \<open>
  C6 (as the code has it). A TV target without a season or an episode segment matches no
  source URL: every iteration \<open>continue\<close>s before \<open>browser.newPage()\<close>, so no page is
  opened, and the handler answers 404 after both sources were skipped.
\<close>

theorem tv_url_without_episode_is_not_found:
  assumes "query = Some targetUrl" "js_includes targetUrl ''/tv/''"
    and "\<not> js_includes targetUrl ''/movie/''" "tv_match targetUrl = None"
  shows "ex_status (extract_stream origin world query) = 404
       \<and> opened (ex_events (extract_stream origin world query)) = []
       \<and> tried (ex_events (extract_stream origin world query)) = map src_name SOURCES"
proof -
  from assms(2) have ne: "targetUrl \<noteq> []" by auto
  have "\<forall>s\<in>set SOURCES. source_url targetUrl s = None"
    using assms(3,4) by (simp add: source_url_def)
  then have r: "try_sources world targetUrl SOURCES None []
      = (None, None, [] @ map (\<lambda>s. Trying (src_name s)) SOURCES)"
    by (rule try_sources_skip)
  have e: "extract_stream origin world query =
      \<lparr>ex_status = 404,
                    ex_body =
                      [(''error'', JStr ''Could not extract stream URL''),
                       (''debug'', JObj
                          [(''message'', JStr ''No matching URL pattern found from any source''),
                           (''triedSources'', JArr (map (\<lambda>s. JStr (src_name s)) SOURCES)),
                           (''suggestion'', JStr ''All sources failed or video might be protected'')])],
                    ex_events = map (\<lambda>s. Trying (src_name s)) SOURCES\<rparr>"
    using assms(1,2) ne r
    by (simp add: extract_stream_def truthy_def js_or_def Let_def close_if_def)
  show ?thesis unfolding e by (simp add: SOURCES_def opened_simps tried_simps)
qed

text \<open>The target \<open>https://vidlink.pro/tv/1399/1\<close> has no episode segment.\<close>

theorem tv_url_without_episode_is_not_found_witness:
  "js_includes ''https://vidlink.pro/tv/1399/1'' ''/tv/''
   \<and> \<not> js_includes ''https://vidlink.pro/tv/1399/1'' ''/movie/''
   \<and> tv_match ''https://vidlink.pro/tv/1399/1'' = None
   \<and> opened (ex_events (extract_stream (\<lambda>u. None) (\<lambda>u. Settled [''https://cdn.example/a.m3u8''])
        (Some ''https://vidlink.pro/tv/1399/1''))) = []
   \<and> tried (ex_events (extract_stream (\<lambda>u. None) (\<lambda>u. Settled [''https://cdn.example/a.m3u8''])
        (Some ''https://vidlink.pro/tv/1399/1''))) = [''vidlink.pro'', ''moviesapi.to'']"
proof -
  let ?T = "''https://vidlink.pro/tv/1399/1''"
  have a: "js_includes ?T ''/tv/''" by simp
  have b: "\<not> js_includes ?T ''/movie/''" by simp
  have c: "tv_match ?T = None" by (simp add: match_tv_at_def digits_then_slash_def is_digit_def)
  from tv_url_without_episode_is_not_found[where query = "Some ?T" and targetUrl = ?T
      and origin = "\<lambda>u. None" and world = "\<lambda>u. Settled [''https://cdn.example/a.m3u8'']",
      OF refl a b c]
  have "opened (ex_events (extract_stream (\<lambda>u. None) (\<lambda>u. Settled [''https://cdn.example/a.m3u8''])
        (Some ?T))) = []
     \<and> tried (ex_events (extract_stream (\<lambda>u. None) (\<lambda>u. Settled [''https://cdn.example/a.m3u8''])
        (Some ?T))) = [''vidlink.pro'', ''moviesapi.to'']"
    by (simp add: SOURCES_def)
  with a b c show ?thesis by blast
qed

text \<open>For this target the status is 404, not 400.\<close>

theorem tv_url_without_episode_answers_404:
  "js_includes ''https://vidlink.pro/tv/1399/1'' ''/tv/''
   \<and> tv_match ''https://vidlink.pro/tv/1399/1'' = None
   \<and> ex_status (extract_stream (\<lambda>u. None) (\<lambda>u. Settled [''https://cdn.example/a.m3u8''])
        (Some ''https://vidlink.pro/tv/1399/1'')) = 404
   \<and> ex_status (extract_stream (\<lambda>u. None) (\<lambda>u. Settled [''https://cdn.example/a.m3u8''])
        (Some ''https://vidlink.pro/tv/1399/1'')) \<noteq> 400"
  by (simp add: resolver_eval)

text \<open>
  The resolver closes every page it opens, on each of its exits (\<open>page.close()\<close> is
  taken to resolve): inside the loop after a failed attempt, and in the \<open>finally\<close>
  block for the page a successful attempt left open.
\<close>

lemma closed_append: "closed (a @ b) = closed a @ closed b"
  by (simp add: closed_def)

lemma closed_simps:
  "closed [] = []" "closed (Trying n # ev) = closed ev" "closed (Opened u # ev) = closed ev"
  "closed (Closed u # ev) = u # closed ev"
  by (simp_all add: closed_def)

lemma closed_close_if: "set (closed (close_if page)) = set_option page"
  by (cases page) (simp_all add: close_if_def closed_def)

lemma try_sources_pages:
  "set (opened ev) \<subseteq> set (closed ev) \<Longrightarrow>
   try_sources w t ss page ev = (u, page', ev') \<Longrightarrow>
   set (opened ev') \<subseteq> set (closed ev') \<union> set_option page'"
proof (induction ss arbitrary: page ev)
  case Nil
  then show ?case by auto
next
  case (Cons s ss)
  have step: "\<And>page2 ev2. set (opened ev2) \<subseteq> set (closed ev2) \<Longrightarrow>
      try_sources w t ss page2 ev2 = (u, page', ev') \<Longrightarrow> ?case"
    by (rule Cons.IH)
  show ?case
  proof (cases "source_url t s")
    case None
    with Cons.prems show ?thesis
      by (intro step[of "ev @ [Trying (src_name s)]" page])
         (auto simp: opened_append opened_simps closed_append closed_simps)
  next
    case (Some su)
    show ?thesis
    proof (cases "w su")
      case NewPageFails
      with Some Cons.prems show ?thesis
        by (intro step[of "ev @ [Trying (src_name s)] @ close_if page" page])
           (auto simp: opened_append opened_simps closed_append closed_simps)
    next
      case PageFails
      with Some Cons.prems show ?thesis
        by (intro step[of "ev @ [Trying (src_name s), Opened su, Closed su]" "Some su"])
           (auto simp: opened_append opened_simps closed_append closed_simps)
    next
      case (Settled reqs)
      show ?thesis
      proof (cases "select_stream (foldl on_request emptyCaptured reqs)")
        case None
        with Settled Some Cons.prems show ?thesis
          by (intro step[of "ev @ [Trying (src_name s), Opened su, Closed su]" "Some su"])
             (auto simp: opened_append opened_simps closed_append closed_simps)
      next
        case (Some v)
        with Settled \<open>source_url t s = Some su\<close> Cons.prems show ?thesis
          by (auto simp: opened_append opened_simps closed_append closed_simps)
      qed
    qed
  qed
qed

lemma extract_stream_closes_pages:
  "set (opened (ex_events (extract_stream origin world query)))
     \<subseteq> set (closed (ex_events (extract_stream origin world query)))"
proof -
  obtain u p ev where r: "try_sources world (js_or query []) SOURCES None [] = (u, p, ev)"
    by (cases "try_sources world (js_or query []) SOURCES None []") auto
  have "set (opened ev) \<subseteq> set (closed ev) \<union> set_option p"
    using try_sources_pages[OF _ r] by (simp add: opened_simps closed_simps)
  then have "set (opened (ev @ close_if p)) \<subseteq> set (closed (ev @ close_if p))"
    by (auto simp: opened_append opened_simps closed_append closed_close_if)
  then show ?thesis
    using r by (auto simp: extract_stream_def Let_def opened_simps closed_simps split: option.splits)
qed

section \<open>Properties of the DOM and script fallback\<close>

lemma starts_slash2: "startsWith src ''//'' \<Longrightarrow> startsWith src ''/''"
  by (cases src) (auto simp: startsWith_def)

text \<open>
  C8 (as the code has it). The scan takes the first candidate, in scan order, whose
  \<open>src\<close> is a non-empty string without the markers \<open>ads\<close>, \<open>doubleclick\<close> or
  \<open>analytics\<close> and that starts with \<open>//\<close>, \<open>/\<close> or \<open>http\<close>: \<open>https:\<close> is put
  before a protocol-relative one, the page's origin before a root-relative one, an
  absolute one is kept. The three forms have no rank among candidates. With nothing
  captured and the one candidate \<open>//cdn.example/a.mp4\<close> the result is
  \<open>https://cdn.example/a.mp4\<close>.
\<close>

theorem fallback_picks_first_usable_candidate:
  "pick_source origin url cs
     = (case find usable cs of
          None \<Rightarrow> Inr None
        | Some c \<Rightarrow> make_absolute origin url (vs_src c))
   \<and> stream_after_scan origin url emptyCaptured
        [\<lparr>vs_type = ''video'', vs_src = JsString ''//cdn.example/a.mp4''\<rparr>]
       = Inr (Some ''https://cdn.example/a.mp4'')"
proof -
  have "pick_source origin url cs
     = (case find usable cs of
          None \<Rightarrow> Inr None
        | Some c \<Rightarrow> make_absolute origin url (vs_src c))"
    by (induction cs)
       (auto simp: usable_def make_absolute_def dest: starts_slash2 split: js_value.splits option.splits)
  moreover have "stream_after_scan origin url emptyCaptured
        [\<lparr>vs_type = ''video'', vs_src = JsString ''//cdn.example/a.mp4''\<rparr>]
       = Inr (Some ''https://cdn.example/a.mp4'')"
    by (simp add: stream_after_scan_def select_stream_def emptyCaptured_def truthy_def is_ad_def
        startsWith_def)
  ultimately show ?thesis by blast
qed

text \<open>
  A root-relative iframe source scanned before an absolute video source: the earlier,
  root-relative candidate is selected, not the absolute one.
\<close>

theorem earlier_relative_candidate_beats_absolute:
  "stream_after_scan (\<lambda>u. Some ''https://site.example'') ''https://site.example/movie/1'' emptyCaptured
     [\<lparr>vs_type = ''iframe'', vs_src = JsString ''/embed/a.mp4''\<rparr>,
      \<lparr>vs_type = ''video'', vs_src = JsString ''http://cdn.example/b.mp4''\<rparr>]
     = Inr (Some ''https://site.example/embed/a.mp4'')
   \<and> stream_after_scan (\<lambda>u. Some ''https://site.example'') ''https://site.example/movie/1'' emptyCaptured
     [\<lparr>vs_type = ''iframe'', vs_src = JsString ''/embed/a.mp4''\<rparr>,
      \<lparr>vs_type = ''video'', vs_src = JsString ''http://cdn.example/b.mp4''\<rparr>]
     \<noteq> Inr (Some ''http://cdn.example/b.mp4'')"
  by (simp add: stream_after_scan_def select_stream_def emptyCaptured_def truthy_def is_ad_def
        startsWith_def)

section \<open>Properties of the \<open>/api/stream\<close> headers\<close>

lemma map_of_own_set: "map_of (own_set t k v) = (map_of t)(k \<mapsto> v)"
  by (induction t k v rule: own_set.induct) auto

lemma map_of_own_assign_out:
  "k \<notin> fst ` set src \<Longrightarrow> map_of (own_assign t src) k = map_of t k"
  by (induction t src rule: own_assign.induct) (auto simp: map_of_own_set)

lemma map_of_own_assign_in:
  "distinct (map fst src) \<Longrightarrow> (k, v) \<in> set src \<Longrightarrow> map_of (own_assign t src) k = Some v"
proof (induction t src rule: own_assign.induct)
  case (1 t)
  then show ?case by simp
next
  case (2 t k' v' src)
  show ?case
  proof (cases "(k, v) = (k', v')")
    case True
    then have "k \<notin> fst ` set src" using "2.prems"(1) by auto
    then show ?thesis using True by (simp add: map_of_own_assign_out map_of_own_set)
  next
    case False
    then have "(k, v) \<in> set src" using "2.prems"(2) by auto
    then show ?thesis using "2.IH" "2.prems"(1) by simp
  qed
qed

lemma map_of_own_assign_key:
  "distinct (map fst src) \<Longrightarrow> k \<notin> fst ` set t \<Longrightarrow> map_of (own_assign t src) k = map_of src k"
proof (cases "map_of src k")
  case None
  assume "k \<notin> fst ` set t"
  then have "map_of t k = None" by (simp add: map_of_eq_None_iff)
  moreover from None have "k \<notin> fst ` set src" by (simp add: map_of_eq_None_iff)
  ultimately show ?thesis using None by (simp add: map_of_own_assign_out)
next
  case (Some v)
  assume "distinct (map fst src)"
  moreover from Some have "(k, v) \<in> set src" by (rule map_of_SomeD)
  ultimately show ?thesis using Some by (simp add: map_of_own_assign_in)
qed

text \<open>Entries without a \<open>__proto__\<close> key are all written as own properties.\<close>

lemma obj_assign_plain:
  "''__proto__'' \<notin> fst ` set src \<Longrightarrow>
     obj_assign t src = t\<lparr>obj_own := own_assign (obj_own t) src\<rparr>"
  by (induction t src rule: obj_assign.induct) (auto simp: obj_set_def)

lemma filter_not_proto_id: "''__proto__'' \<notin> fst ` set src \<Longrightarrow> filter not_proto src = src"
  by (induction src) (auto simp: not_proto_def)

lemma map_of_filter_not_proto:
  "map_of (filter not_proto src) k = (if k = ''__proto__'' then None else map_of src k)"
  by (induction src) (auto simp: not_proto_def)

text \<open>
  Onto an object with prototype \<open>Object.prototype\<close> and no own \<open>__proto__\<close>, entries
  with distinct keys: the \<open>__proto__\<close> entry, if there is one, goes to the setter, and
  the others are written as own properties.
\<close>

lemma obj_assign_distinct:
  "distinct (map fst src) \<Longrightarrow> map_of (obj_own t) ''__proto__'' = None \<Longrightarrow>
   obj_proto t = ObjectPrototype \<Longrightarrow>
   obj_assign t src =
     t\<lparr>obj_own := own_assign (obj_own t) (filter not_proto src),
       obj_proto := proto_after (map_of src ''__proto__'')\<rparr>"
proof (induction t src rule: obj_assign.induct)
  case (1 target)
  then show ?case by (simp add: proto_after_def)
next
  case (2 target k v src)
  show ?case
  proof (cases "k = ''__proto__''")
    case True
    then have no: "''__proto__'' \<notin> fst ` set src" using "2.prems"(1) by auto
    have s: "obj_set target k v = proto_setter target v"
      using True "2.prems"(2,3) by (simp add: obj_set_def reaches_proto_setter_def)
    have ps: "proto_setter target v = target\<lparr>obj_proto := proto_after (Some v)\<rparr>"
      using "2.prems"(3) by (cases target; cases v) (simp_all add: proto_setter_def proto_after_def)
    have f: "filter not_proto ((k, v) # src) = src"
      using True no by (simp add: filter_not_proto_id) (simp add: not_proto_def)
    have mp: "map_of ((k, v) # src) ''__proto__'' = Some v"
      using True by simp
    have "obj_assign target ((k, v) # src)
        = (proto_setter target v)\<lparr>obj_own := own_assign (obj_own (proto_setter target v)) src\<rparr>"
      using obj_assign_plain[OF no, of "proto_setter target v"] s by simp
    then show ?thesis
      unfolding f mp ps by (cases target) simp
  next
    case False
    then have s: "obj_set target k v = target\<lparr>obj_own := own_set (obj_own target) k v\<rparr>"
      by (simp add: obj_set_def)
    have "obj_assign (obj_set target k v) src =
        (obj_set target k v)\<lparr>obj_own := own_assign (obj_own (obj_set target k v)) (filter not_proto src),
          obj_proto := proto_after (map_of src ''__proto__'')\<rparr>"
      using "2.prems" False by (intro "2.IH") (simp_all add: s map_of_own_set)
    moreover have "filter not_proto ((k, v) # src) = (k, v) # filter not_proto src"
      using False by (simp add: not_proto_def)
    moreover have "map_of ((k, v) # src) ''__proto__'' = map_of src ''__proto__''"
      using False by simp
    ultimately show ?thesis by (simp add: s)
  qed
qed

lemma direct_stream_headers_merge:
  assumes "parseURL url = Some u" "custom_headers parseJSON url = Some (Some custom)"
    and "distinct (map fst custom)"
  shows "(k, v) \<in> set custom \<Longrightarrow> k \<noteq> ''__proto__'' \<Longrightarrow>
      map_of (obj_own (direct_stream_headers parseURL parseJSON url)) k = Some v"
    and "k \<notin> fst ` set custom \<or> k = ''__proto__'' \<Longrightarrow>
      map_of (obj_own (direct_stream_headers parseURL parseJSON url)) k
        = map_of (obj_own direct_default_headers) k"
    and "obj_proto (direct_stream_headers parseURL parseJSON url)
        = proto_after (map_of custom ''__proto__'')"
proof -
  have d: "direct_stream_headers parseURL parseJSON url =
      direct_default_headers\<lparr>obj_own := own_assign (obj_own direct_default_headers) (filter not_proto custom),
        obj_proto := proto_after (map_of custom ''__proto__'')\<rparr>"
    using assms
    by (simp add: direct_stream_headers_def)
       (rule obj_assign_distinct, simp_all add: direct_default_headers_def)
  have df: "distinct (map fst (filter not_proto custom))"
    using assms(3) by (rule distinct_map_filter)
  show "(k, v) \<in> set custom \<Longrightarrow> k \<noteq> ''__proto__'' \<Longrightarrow>
      map_of (obj_own (direct_stream_headers parseURL parseJSON url)) k = Some v"
    unfolding d using df by (simp add: map_of_own_assign_in not_proto_def)
  show "k \<notin> fst ` set custom \<or> k = ''__proto__'' \<Longrightarrow>
      map_of (obj_own (direct_stream_headers parseURL parseJSON url)) k
        = map_of (obj_own direct_default_headers) k"
  proof -
    assume "k \<notin> fst ` set custom \<or> k = ''__proto__''"
    then have "k \<notin> fst ` set (filter not_proto custom)"
      by (auto simp: not_proto_def)
    then have "map_of (own_assign (obj_own direct_default_headers) (filter not_proto custom)) k
        = map_of (obj_own direct_default_headers) k"
      by (rule map_of_own_assign_out)
    then show ?thesis unfolding d by simp
  qed
  show "obj_proto (direct_stream_headers parseURL parseJSON url)
        = proto_after (map_of custom ''__proto__'')"
    unfolding d by simp
qed

lemma direct_stream_headers_default:
  "custom_headers parseJSON url = Some None \<Longrightarrow>
     direct_stream_headers parseURL parseJSON url = direct_default_headers"
  by (simp add: direct_stream_headers_def split: option.splits)

lemma proto_after_read:
  "(case proto_after x of ProtoObj es \<Rightarrow> map_of es k | _ \<Rightarrow> None)
     = (case x of Some (HObj es) \<Rightarrow> map_of es k | _ \<Rightarrow> None)"
proof (cases x)
  case None
  then show ?thesis by (simp add: proto_after_def)
next
  case (Some v)
  then show ?thesis by (cases v) (simp_all add: proto_after_def)
qed

lemma browser_merged_get:
  assumes "custom_headers parseJSON url = Some (Some custom)" "distinct (map fst custom)"
    and "k = ''referer'' \<or> k = ''origin''"
  shows "obj_get (browser_merged_headers parseJSON url) k = client_value custom k"
proof -
  have m: "browser_merged_headers parseJSON url =
      browser_default_headers\<lparr>obj_own := own_assign (obj_own browser_default_headers) (filter not_proto custom),
        obj_proto := proto_after (map_of custom ''__proto__'')\<rparr>"
    using assms(1,2)
    by (simp add: browser_merged_headers_def)
       (rule obj_assign_distinct, simp_all add: browser_default_headers_def)
  have df: "distinct (map fst (filter not_proto custom))"
    using assms(2) by (rule distinct_map_filter)
  have nk: "k \<notin> fst ` set (obj_own browser_default_headers)" "k \<noteq> ''__proto__''"
    using assms(3) by (auto simp: browser_default_headers_def)
  have own: "map_of (own_assign (obj_own browser_default_headers) (filter not_proto custom)) k
      = map_of custom k"
    using map_of_own_assign_key[OF df nk(1)] nk(2) by (simp add: map_of_filter_not_proto)
  have "obj_get (browser_merged_headers parseJSON url) k =
      (case map_of custom k of
         Some v \<Rightarrow> Some v
       | None \<Rightarrow> (case proto_after (map_of custom ''__proto__'') of
                    ProtoObj es \<Rightarrow> map_of es k | _ \<Rightarrow> None))"
    unfolding m by (cases "map_of custom k") (simp_all add: obj_get_def own)
  then show ?thesis
    by (cases "map_of custom k") (simp_all add: client_value_def proto_after_read)
qed

text \<open>
  C10 (as the code has it). When the \<open>url\<close> value carries \<open>headers=<x>\<close> and \<open>x\<close>
  decodes and parses to entries with distinct keys, and \<open>new URL(url)\<close> succeeds: in
  the handler that requests the URL directly, every parsed pair whose key is not
  \<open>__proto__\<close> is an own property of the headers object given to axios, overriding a
  default of the same name, and its other defaults are unchanged; a pair keyed
  \<open>__proto__\<close> is not merged but replaces the prototype of that object when its value
  is an object or \<open>null\<close>. The handler of \<open>server.js\<close> sends its six fixed headers, of
  which \<open>Referer\<close> and \<open>Origin\<close> take the truthy values the client supplies for the
  keys \<open>referer\<close> and \<open>origin\<close> (lower case), as entries or inside the \<open>__proto__\<close>
  entry; no other pair reaches its request. When decoding or parsing fails both send
  their defaults.
\<close>

theorem custom_headers_reach_upstream:
  "(parseURL url = Some u \<and> custom_headers parseJSON url = Some (Some custom)
      \<and> distinct (map fst custom)
     \<longrightarrow> (\<forall>(k, v)\<in>set custom. k \<noteq> ''__proto__''
              \<longrightarrow> map_of (obj_own (direct_stream_headers parseURL parseJSON url)) k = Some v)
        \<and> (\<forall>k. k \<notin> fst ` set custom \<or> k = ''__proto__''
              \<longrightarrow> map_of (obj_own (direct_stream_headers parseURL parseJSON url)) k
                    = map_of (obj_own direct_default_headers) k)
        \<and> obj_proto (direct_stream_headers parseURL parseJSON url)
            = proto_after (map_of custom ''__proto__'')
        \<and> browser_stream_headers parseURL parseJSON url
            = Some (browser_outbound
                (val_or (client_value custom ''referer'') (HStr ''https://vidlink.pro/''))
                (val_or (client_value custom ''origin'') (HStr ''https://vidlink.pro''))))
   \<and> (parseURL url = Some u \<and> custom_headers parseJSON url = Some None
     \<longrightarrow> direct_stream_headers parseURL parseJSON url = direct_default_headers
        \<and> browser_stream_headers parseURL parseJSON url
            = Some (browser_outbound (HStr ''https://vidlink.pro/'') (HStr ''https://vidlink.pro'')))"
proof -
  have a: "parseURL url = Some u \<and> custom_headers parseJSON url = Some (Some custom)
      \<and> distinct (map fst custom)
     \<longrightarrow> (\<forall>(k, v)\<in>set custom. k \<noteq> ''__proto__''
              \<longrightarrow> map_of (obj_own (direct_stream_headers parseURL parseJSON url)) k = Some v)
        \<and> (\<forall>k. k \<notin> fst ` set custom \<or> k = ''__proto__''
              \<longrightarrow> map_of (obj_own (direct_stream_headers parseURL parseJSON url)) k
                    = map_of (obj_own direct_default_headers) k)
        \<and> obj_proto (direct_stream_headers parseURL parseJSON url)
            = proto_after (map_of custom ''__proto__'')"
    using direct_stream_headers_merge[of parseURL url u parseJSON custom] by blast
  have b: "parseURL url = Some u \<and> custom_headers parseJSON url = Some (Some custom)
      \<and> distinct (map fst custom)
     \<longrightarrow> browser_stream_headers parseURL parseJSON url
            = Some (browser_outbound
                (val_or (client_value custom ''referer'') (HStr ''https://vidlink.pro/''))
                (val_or (client_value custom ''origin'') (HStr ''https://vidlink.pro'')))"
  proof
    assume h: "parseURL url = Some u \<and> custom_headers parseJSON url = Some (Some custom)
      \<and> distinct (map fst custom)"
    then have r: "obj_get (browser_merged_headers parseJSON url) ''referer''
        = client_value custom ''referer''"
      by (intro browser_merged_get) simp_all
    from h have o: "obj_get (browser_merged_headers parseJSON url) ''origin''
        = client_value custom ''origin''"
      by (intro browser_merged_get) simp_all
    show "browser_stream_headers parseURL parseJSON url
            = Some (browser_outbound
                (val_or (client_value custom ''referer'') (HStr ''https://vidlink.pro/''))
                (val_or (client_value custom ''origin'') (HStr ''https://vidlink.pro'')))"
      using h by (simp add: browser_stream_headers_def Let_def r o browser_outbound_def)
  qed
  have c: "parseURL url = Some u \<and> custom_headers parseJSON url = Some None
     \<longrightarrow> direct_stream_headers parseURL parseJSON url = direct_default_headers
        \<and> browser_stream_headers parseURL parseJSON url
            = Some (browser_outbound (HStr ''https://vidlink.pro/'') (HStr ''https://vidlink.pro''))"
    by (simp add: direct_stream_headers_default browser_stream_headers_def Let_def
        browser_merged_headers_def browser_default_headers_def val_or_def browser_outbound_def
        obj_get_def)
  from a b c show ?thesis by blast
qed

text \<open>
  The direct handler with \<open>headers={"Referer":"https://evil.example/"}\<close>; both
  handlers with \<open>headers={"__proto__":{"referer":"https://evil.example/"}}\<close>, where
  nothing is merged, the parsed object becomes the prototype, and \<open>server.js\<close> reads
  its \<open>Referer\<close> from there; and the direct handler with a value that does not parse.
\<close>

theorem custom_headers_reach_upstream_witness:
  "sample_parseURL ''https://cdn.example/v.m3u8?headers=%7B%22Referer%22%3A%22https%3A%2F%2Fevil.example%2F%22%7D'' = Some ''https://cdn.example/v.m3u8?headers=%7B%22Referer%22%3A%22https%3A%2F%2Fevil.example%2F%22%7D''
   \<and> custom_headers sample_parseJSON ''https://cdn.example/v.m3u8?headers=%7B%22Referer%22%3A%22https%3A%2F%2Fevil.example%2F%22%7D'' = Some (Some [(''Referer'', HStr ''https://evil.example/'')])
   \<and> map_of (obj_own (direct_stream_headers sample_parseURL sample_parseJSON ''https://cdn.example/v.m3u8?headers=%7B%22Referer%22%3A%22https%3A%2F%2Fevil.example%2F%22%7D'')) ''Referer''
       = Some (HStr ''https://evil.example/'')
   \<and> map_of (obj_own (direct_stream_headers sample_parseURL sample_parseJSON ''https://cdn.example/v.m3u8?headers=%7B%22Referer%22%3A%22https%3A%2F%2Fevil.example%2F%22%7D'')) ''Accept''
       = Some (HStr ''*/*'')
   \<and> custom_headers sample_parseJSON ''https://cdn.example/v.m3u8?headers=%7B%22__proto__%22%3A%7B%22referer%22%3A%22https%3A%2F%2Fevil.example%2F%22%7D%7D''
       = Some (Some [(''__proto__'', HObj [(''referer'', HStr ''https://evil.example/'')])])
   \<and> map_of (obj_own (direct_stream_headers sample_parseURL sample_parseJSON ''https://cdn.example/v.m3u8?headers=%7B%22__proto__%22%3A%7B%22referer%22%3A%22https%3A%2F%2Fevil.example%2F%22%7D%7D'')) ''__proto__''
       = None
   \<and> obj_proto (direct_stream_headers sample_parseURL sample_parseJSON ''https://cdn.example/v.m3u8?headers=%7B%22__proto__%22%3A%7B%22referer%22%3A%22https%3A%2F%2Fevil.example%2F%22%7D%7D'')
       = ProtoObj [(''referer'', HStr ''https://evil.example/'')]
   \<and> browser_stream_headers sample_parseURL sample_parseJSON ''https://cdn.example/v.m3u8?headers=%7B%22__proto__%22%3A%7B%22referer%22%3A%22https%3A%2F%2Fevil.example%2F%22%7D%7D''
       = Some (browser_outbound (HStr ''https://evil.example/'') (HStr ''https://vidlink.pro''))
   \<and> custom_headers sample_parseJSON ''https://cdn.example/v.m3u8?headers=%7B'' = Some None
   \<and> direct_stream_headers sample_parseURL sample_parseJSON ''https://cdn.example/v.m3u8?headers=%7B'' = direct_default_headers"
proof -
  let ?U1 = "''https://cdn.example/v.m3u8?headers=%7B%22Referer%22%3A%22https%3A%2F%2Fevil.example%2F%22%7D''"
  let ?U2 = "''https://cdn.example/v.m3u8?headers=%7B%22__proto__%22%3A%7B%22referer%22%3A%22https%3A%2F%2Fevil.example%2F%22%7D%7D''"
  let ?U3 = "''https://cdn.example/v.m3u8?headers=%7B''"
  let ?C1 = "[(''Referer'', HStr ''https://evil.example/'')]"
  let ?C2 = "[(''__proto__'', HObj [(''referer'', HStr ''https://evil.example/'')])]"
  have p1: "sample_parseURL ?U1 = Some ?U1" by code_simp
  have c1: "custom_headers sample_parseJSON ?U1 = Some (Some ?C1)" by code_simp
  have p2: "sample_parseURL ?U2 = Some ?U2" by code_simp
  have c2: "custom_headers sample_parseJSON ?U2 = Some (Some ?C2)" by code_simp
  have p3: "sample_parseURL ?U3 = Some ?U3" by code_simp
  have c3: "custom_headers sample_parseJSON ?U3 = Some None" by code_simp
  have d1: "distinct (map fst ?C1)" by simp
  have d2: "distinct (map fst ?C2)" by simp
  note t1 = custom_headers_reach_upstream[of sample_parseURL ?U1 ?U1 sample_parseJSON ?C1]
  note t2 = custom_headers_reach_upstream[of sample_parseURL ?U2 ?U2 sample_parseJSON ?C2]
  note t3 = custom_headers_reach_upstream[of sample_parseURL ?U3 ?U3 sample_parseJSON "[]"]
  from t1 p1 c1 d1
  have 1: "\<forall>(k, v)\<in>set ?C1. k \<noteq> ''__proto__''
      \<longrightarrow> map_of (obj_own (direct_stream_headers sample_parseURL sample_parseJSON ?U1)) k = Some v"
    by blast
  from t1 p1 c1 d1
  have 2: "\<forall>k. k \<notin> fst ` set ?C1 \<or> k = ''__proto__''
              \<longrightarrow> map_of (obj_own (direct_stream_headers sample_parseURL sample_parseJSON ?U1)) k
                    = map_of (obj_own direct_default_headers) k"
    by blast
  from 1 have 3: "map_of (obj_own (direct_stream_headers sample_parseURL sample_parseJSON ?U1)) ''Referer''
      = Some (HStr ''https://evil.example/'')"
    by simp
  from 2 have 4: "map_of (obj_own (direct_stream_headers sample_parseURL sample_parseJSON ?U1)) ''Accept''
      = Some (HStr ''*/*'')"
    by (simp add: direct_default_headers_def)
  from t2 p2 c2 d2
  have 5: "\<forall>k. k \<notin> fst ` set ?C2 \<or> k = ''__proto__''
              \<longrightarrow> map_of (obj_own (direct_stream_headers sample_parseURL sample_parseJSON ?U2)) k
                    = map_of (obj_own direct_default_headers) k"
    by blast
  from 5 have 6: "map_of (obj_own (direct_stream_headers sample_parseURL sample_parseJSON ?U2)) ''__proto__''
      = None"
    by (simp add: direct_default_headers_def)
  from t2 p2 c2 d2
  have "obj_proto (direct_stream_headers sample_parseURL sample_parseJSON ?U2)
      = proto_after (map_of ?C2 ''__proto__'')"
    by blast
  then have 7: "obj_proto (direct_stream_headers sample_parseURL sample_parseJSON ?U2)
       = ProtoObj [(''referer'', HStr ''https://evil.example/'')]"
    by (simp add: proto_after_def)
  from t2 p2 c2 d2
  have "browser_stream_headers sample_parseURL sample_parseJSON ?U2
            = Some (browser_outbound
                (val_or (client_value ?C2 ''referer'') (HStr ''https://vidlink.pro/''))
                (val_or (client_value ?C2 ''origin'') (HStr ''https://vidlink.pro'')))"
    by blast
  then have 8: "browser_stream_headers sample_parseURL sample_parseJSON ?U2
       = Some (browser_outbound (HStr ''https://evil.example/'') (HStr ''https://vidlink.pro''))"
    by (simp add: client_value_def val_or_def)
  from t3 p3 c3
  have 9: "direct_stream_headers sample_parseURL sample_parseJSON ?U3 = direct_default_headers"
    by blast
  from p1 c1 3 4 c2 6 7 8 c3 9 show ?thesis by blast
qed

text \<open>
  The first URL given to the handler of \<open>server.js\<close>: the value decodes and parses,
  and the request still carries the default \<open>Referer\<close>, not the client's, which the direct
  handler sends.
\<close>

theorem browser_variant_keeps_default_referer:
  "custom_headers sample_parseJSON ''https://cdn.example/v.m3u8?headers=%7B%22Referer%22%3A%22https%3A%2F%2Fevil.example%2F%22%7D'' = Some (Some [(''Referer'', HStr ''https://evil.example/'')])
   \<and> browser_stream_headers sample_parseURL sample_parseJSON ''https://cdn.example/v.m3u8?headers=%7B%22Referer%22%3A%22https%3A%2F%2Fevil.example%2F%22%7D''
       = Some (browser_outbound (HStr ''https://vidlink.pro/'') (HStr ''https://vidlink.pro''))
   \<and> map_of (browser_outbound (HStr ''https://vidlink.pro/'') (HStr ''https://vidlink.pro''))
        ''Referer'' = Some (HStr ''https://vidlink.pro/'')
   \<and> map_of (obj_own (direct_stream_headers sample_parseURL sample_parseJSON ''https://cdn.example/v.m3u8?headers=%7B%22Referer%22%3A%22https%3A%2F%2Fevil.example%2F%22%7D'')) ''Referer''
       = Some (HStr ''https://evil.example/'')"
  by code_simp

section \<open>Properties of the \<open>/api/stream\<close> resources\<close>

lemma stream_never_destroyed: "StreamDestroyed \<notin> set (api_stream_browser w p)"
  by (simp add: api_stream_browser_def caught_def)

lemma browser_leaks_on_failure:
  "launch_ok w \<Longrightarrow>
   \<not> (newpage_ok w \<and> p \<and> goto_ok w \<and> video_found w \<and> cookies_ok w \<and> close_ok w) \<Longrightarrow>
   BrowserLaunched \<in> set (api_stream_browser w p) \<and> BrowserClosed \<notin> set (api_stream_browser w p)"
  by (auto simp: api_stream_browser_def caught_def)

text \<open>
  C9. When navigation fails, the handler of \<open>server.js\<close> answers 500 with the browser
  it launched still open: \<open>browser.close()\<close> stands only on the path where the video
  URL was found. On that path both upstream streams are opened and neither is piped or
  destroyed.
\<close>

theorem failed_navigation_leaves_browser_open:
  "api_stream_browser
     \<lparr>launch_ok = True, newpage_ok = True, goto_ok = False, video_found = False,
      cookies_ok = True, close_ok = True, first_fetch_ok = True, url_valid = True,
      second_fetch_ok = True\<rparr> True
     = [BrowserLaunched, PageOpened, Sent 500, FinallyThrows]
   \<and> api_stream_browser
     \<lparr>launch_ok = True, newpage_ok = True, goto_ok = True, video_found = True,
      cookies_ok = True, close_ok = True, first_fetch_ok = True, url_valid = True,
      second_fetch_ok = True\<rparr> True
     = [BrowserLaunched, PageOpened, BrowserClosed, StreamOpened, StreamOpened, Sent 500,
        FinallyThrows]"
  by (simp add: api_stream_browser_def caught_def)

end
